theory Spec2Isabelle
  imports Main "HOL-Library.AList" "HOL-Library.Char_ord" "HOL-Library.List_Lexorder"
begin

section \<open>JavaScript strings\<close>

text \<open>
  A JavaScript string is modelled as a \<^typ>\<open>string\<close> whose characters are the
  code units \<open>0..255\<close> (the Latin-1 range). The helpers below follow the ECMAScript
  definitions restricted to that range.
\<close>

definition is_digit :: "char \<Rightarrow> bool" where
  \<comment> \<open>the class \<open>\d\<close>\<close>
  "is_digit c = (let n = (of_char c :: nat) in 48 \<le> n \<and> n \<le> 57)"

definition is_space :: "char \<Rightarrow> bool" where
  \<comment> \<open>the class \<open>\s\<close>: white space and line terminators (TAB, LF, VT, FF, CR, SP, NBSP)\<close>
  "is_space c = (let n = (of_char c :: nat) in (9 \<le> n \<and> n \<le> 13) \<or> n = 32 \<or> n = 160)"

definition is_dot :: "char \<Rightarrow> bool" where
  \<comment> \<open>the class \<open>.\<close> without the \<open>s\<close> flag: anything but a line terminator\<close>
  "is_dot c = (let n = (of_char c :: nat) in n \<noteq> 10 \<and> n \<noteq> 13)"

definition is_ascii_letter :: "char \<Rightarrow> bool" where
  \<comment> \<open>the class \<open>[A-Z]\<close> under the \<open>i\<close> flag\<close>
  "is_ascii_letter c =
     (let n = (of_char c :: nat) in (65 \<le> n \<and> n \<le> 90) \<or> (97 \<le> n \<and> n \<le> 122))"

definition lower_char :: "char \<Rightarrow> char" where
  "lower_char c =
     (let n = (of_char c :: nat)
      in if (65 \<le> n \<and> n \<le> 90) \<or> (192 \<le> n \<and> n \<le> 222 \<and> n \<noteq> 215)
         then char_of (n + 32) else c)"

definition upper_ascii :: "char \<Rightarrow> char" where
  \<comment> \<open>\<open>toUpperCase\<close> on one code unit, used on ASCII text only\<close>
  "upper_ascii c =
     (let n = (of_char c :: nat) in if 97 \<le> n \<and> n \<le> 122 then char_of (n - 32) else c)"

definition toLowerCase :: "string \<Rightarrow> string" where
  "toLowerCase s = map lower_char s"

definition toUpperCase :: "string \<Rightarrow> string" where
  "toUpperCase s = map upper_ascii s"

definition trim :: "string \<Rightarrow> string" where
  "trim s = rev (dropWhile is_space (rev (dropWhile is_space s)))"

fun split_on :: "char \<Rightarrow> string \<Rightarrow> string list" where
  \<comment> \<open>\<open>s.split(c)\<close> for a one-character separator; never returns the empty list\<close>
  "split_on sep [] = [[]]"
| "split_on sep (c # cs) =
     (if c = sep then [] # split_on sep cs
      else (case split_on sep cs of
              [] \<Rightarrow> [[c]]
            | p # ps \<Rightarrow> (c # p) # ps))"

definition endsWith :: "string \<Rightarrow> string \<Rightarrow> bool" where
  "endsWith s suffix = (length suffix \<le> length s \<and> drop (length s - length suffix) s = suffix)"

definition startsWith :: "string \<Rightarrow> string \<Rightarrow> bool" where
  "startsWith s pre = (take (length pre) s = pre)"

fun join :: "string \<Rightarrow> string list \<Rightarrow> string" where
  "join sep [] = []"
| "join sep [x] = x"
| "join sep (x # y # ys) = x @ sep @ join sep (y # ys)"

definition digit_val :: "char \<Rightarrow> nat" where
  "digit_val c = of_char c - 48"

definition parseInt :: "string \<Rightarrow> int option" where
  \<comment> \<open>\<open>parseInt\<close>/\<open>Number\<close> on the strings the program passes: captures of \<open>\d\<close>-groups and
      substrings of them. The longest prefix of decimal digits is read; \<open>None\<close> is NaN.\<close>
  "parseInt s =
     (let ds = takeWhile is_digit s
      in if ds = [] then None
         else Some (int (foldl (\<lambda>acc c. 10 * acc + digit_val c) 0 ds)))"

function show_digits :: "int \<Rightarrow> string" where
  \<comment> \<open>the decimal digits of a number that is not negative\<close>
  "show_digits i =
     (if i < 10 then [char_of (48 + i)]
      else show_digits (i div 10) @ [char_of (48 + i mod 10)])"
  by pat_completeness auto
termination
  by (relation "measure nat") auto

definition show_int :: "int \<Rightarrow> string" where
  \<comment> \<open>the text of an integral number in a template literal\<close>
  "show_int i = (if i < 0 then CHR ''-'' # show_digits (- i) else show_digits i)"

definition show_nat :: "nat \<Rightarrow> string" where
  "show_nat n = show_digits (int n)"

section \<open>Regular expressions\<close>

text \<open>
  The patterns of the program are kept as data and run by a backtracking matcher that
  returns every way to match, in the priority order of ECMAScript (greedy quantifiers,
  left alternative first). The first element of the result is the match JavaScript
  reports. A matcher state is the position in the subject, the rest of the subject from
  there, and the capture groups set so far (newest first).
\<close>

datatype rx =
    Cls "char \<Rightarrow> bool"     \<comment> \<open>one character of a class\<close>
  | Str string              \<comment> \<open>literal text\<close>
  | StrI string             \<comment> \<open>literal ASCII text under the \<open>i\<close> flag\<close>
  | Eps
  | Seq rx rx
  | Alt rx rx
  | Rep nat "nat option" rx \<comment> \<open>greedy \<open>{lo,hi}\<close>; \<open>None\<close> is no upper bound\<close>
  | Grp nat rx              \<comment> \<open>capture group number \<open>n\<close>\<close>
  | Bol                     \<comment> \<open>\<open>^\<close>\<close>
  | Eol                     \<comment> \<open>\<open>$\<close>\<close>

type_synonym rstate = "nat \<times> string \<times> (nat \<times> string) list"

fun rep_run :: "(rstate \<Rightarrow> rstate list) \<Rightarrow> nat \<Rightarrow> nat \<Rightarrow> rstate \<Rightarrow> rstate list" where
  \<comment> \<open>between \<open>lo\<close> and \<open>hi\<close> more iterations of \<open>f\<close>, most iterations first; once the
      minimum is reached an iteration that consumes nothing is not taken\<close>
  "rep_run f lo 0 st = (if lo = 0 then [st] else [])"
| "rep_run f lo (Suc hi) st =
     concat (map (rep_run f (lo - 1) hi)
               (filter (\<lambda>st'. 0 < lo \<or> length (fst (snd st')) < length (fst (snd st))) (f st)))
     @ (if lo = 0 then [st] else [])"

primrec rx_run :: "rx \<Rightarrow> rstate \<Rightarrow> rstate list" where
  "rx_run (Cls P) st =
     (case fst (snd st) of
        [] \<Rightarrow> []
      | c # cs \<Rightarrow> if P c then [(Suc (fst st), cs, snd (snd st))] else [])"
| "rx_run (Str s) st =
     (if take (length s) (fst (snd st)) = s
      then [(fst st + length s, drop (length s) (fst (snd st)), snd (snd st))] else [])"
| "rx_run (StrI s) st =
     (if length s \<le> length (fst (snd st))
         \<and> map upper_ascii (take (length s) (fst (snd st))) = map upper_ascii s
      then [(fst st + length s, drop (length s) (fst (snd st)), snd (snd st))] else [])"
| "rx_run Eps st = [st]"
| "rx_run (Seq a b) st = concat (map (rx_run b) (rx_run a st))"
| "rx_run (Alt a b) st = rx_run a st @ rx_run b st"
| "rx_run (Rep lo hi r) st =
     rep_run (rx_run r) lo
       (case hi of Some h \<Rightarrow> h | None \<Rightarrow> lo + length (fst (snd st))) st"
| "rx_run (Grp n r) st =
     map (\<lambda>st'. (fst st', fst (snd st'),
                  (n, take (fst st' - fst st) (fst (snd st))) # snd (snd st')))
       (rx_run r st)"
| "rx_run Bol st = (if fst st = 0 then [st] else [])"
| "rx_run Eol st = (if fst (snd st) = [] then [st] else [])"

fun seqs :: "rx list \<Rightarrow> rx" where
  "seqs [] = Eps"
| "seqs [r] = r"
| "seqs (r # rs) = Seq r (seqs rs)"

fun alts :: "rx list \<Rightarrow> rx" where
  "alts [] = Cls (\<lambda>c. False)"
| "alts [r] = r"
| "alts (r # rs) = Alt r (alts rs)"

abbreviation Opt :: "rx \<Rightarrow> rx" where "Opt r \<equiv> Rep 0 (Some 1) r"
abbreviation Star :: "rx \<Rightarrow> rx" where "Star r \<equiv> Rep 0 None r"
abbreviation Plus :: "rx \<Rightarrow> rx" where "Plus r \<equiv> Rep 1 None r"
abbreviation Chr :: "char \<Rightarrow> rx" where "Chr c \<equiv> Str [c]"
abbreviation Digits :: "nat \<Rightarrow> nat \<Rightarrow> rx" where "Digits lo hi \<equiv> Rep lo (Some hi) (Cls is_digit)"

record rmatch =
  m_index :: nat                      \<comment> \<open>\<open>match.index\<close>\<close>
  m_text :: string                    \<comment> \<open>\<open>match[0]\<close>\<close>
  m_groups :: "(nat \<times> string) list"   \<comment> \<open>\<open>match[n]\<close> for \<open>n > 0\<close>\<close>

definition grp :: "rmatch \<Rightarrow> nat \<Rightarrow> string option" where
  \<comment> \<open>\<open>match[n]\<close>; \<open>None\<close> is \<open>undefined\<close>\<close>
  "grp m n = map_of (m_groups m) n"

fun rx_search :: "rx \<Rightarrow> string \<Rightarrow> nat \<Rightarrow> nat \<Rightarrow> rmatch option" where
  \<comment> \<open>tries the start positions \<open>i, i + 1, ...\<close> (\<open>k\<close> of them), leftmost match first\<close>
  "rx_search r s i 0 = None"
| "rx_search r s i (Suc k) =
     (case rx_run r (i, drop i s, []) of
        [] \<Rightarrow> rx_search r s (Suc i) k
      | st # _ \<Rightarrow> Some \<lparr>m_index = i, m_text = take (fst st - i) (drop i s),
                        m_groups = snd (snd st)\<rparr>)"

definition rx_match :: "string \<Rightarrow> rx \<Rightarrow> rmatch option" where
  \<comment> \<open>\<open>s.match(r)\<close> for a pattern without the \<open>g\<close> flag; \<open>None\<close> is \<open>null\<close>\<close>
  "rx_match s r = rx_search r s 0 (Suc (length s))"

definition rx_test :: "rx \<Rightarrow> string \<Rightarrow> bool" where
  \<comment> \<open>\<open>r.test(s)\<close>\<close>
  "rx_test r s = (rx_match s r \<noteq> None)"

section \<open>Dates\<close>

text \<open>
  Time values are integral milliseconds since the epoch. The host time zone is taken to
  be UTC (\<open>LocalTZA = 0\<close>, no daylight saving). \<open>None\<close> stands for the time value NaN
  of an invalid date.
\<close>

definition LocalTZA :: int where
  "LocalTZA = 0"

definition msPerDay :: int where
  "msPerDay = 86400000"

definition days_from_civil :: "int \<Rightarrow> int \<Rightarrow> int \<Rightarrow> int" where
  \<comment> \<open>day number of year \<open>y\<close>, month \<open>m\<close> (1..12), day of month \<open>d\<close> in the proleptic
      Gregorian calendar, day 0 being 1970-01-01\<close>
  "days_from_civil y m d =
     (let y' = (if m \<le> 2 then y - 1 else y);
          era = y' div 400;
          yoe = y' - era * 400;
          doy = (153 * (if m > 2 then m - 3 else m + 9) + 2) div 5 + d - 1;
          doe = yoe * 365 + yoe div 4 - yoe div 100 + doy
      in era * 146097 + doe - 719468)"

definition civil_from_days :: "int \<Rightarrow> int \<times> int \<times> int" where
  \<comment> \<open>the inverse: year, month (1..12) and day of month of a day number\<close>
  "civil_from_days z0 =
     (let z = z0 + 719468;
          era = z div 146097;
          doe = z - era * 146097;
          yoe = (doe - doe div 1460 + doe div 36524 - doe div 146096) div 365;
          y = yoe + era * 400;
          doy = doe - (365 * yoe + yoe div 4 - yoe div 100);
          mp = (5 * doy + 2) div 153;
          d = doy - (153 * mp + 2) div 5 + 1;
          m = (if mp < 10 then mp + 3 else mp - 9)
      in (if m \<le> 2 then y + 1 else y, m, d))"

definition MakeDay :: "int \<Rightarrow> int \<Rightarrow> int \<Rightarrow> int" where
  \<comment> \<open>ECMAScript MakeDay: the month is 0-based and may lie outside \<open>0..11\<close>\<close>
  "MakeDay year month date =
     (let ym = year + month div 12; mn = month mod 12
      in days_from_civil ym (mn + 1) 1 + date - 1)"

definition MakeTime :: "int \<Rightarrow> int \<Rightarrow> int \<Rightarrow> int" where
  "MakeTime hour minute sec = hour * 3600000 + minute * 60000 + sec * 1000"

definition TimeClip :: "int \<Rightarrow> int option" where
  "TimeClip t = (if \<bar>t\<bar> > 8640000000000000 then None else Some t)"

definition Date_getTime :: "int \<Rightarrow> int \<Rightarrow> int \<Rightarrow> int \<Rightarrow> int \<Rightarrow> int \<Rightarrow> int option" where
  \<comment> \<open>\<open>new Date(year, month, day, hour, minute, second).getTime()\<close>: a year in \<open>0..99\<close>
      means \<open>1900 + year\<close>, and the fields are local time\<close>
  "Date_getTime year month day hour minute second =
     (let yr = (if 0 \<le> year \<and> year \<le> 99 then 1900 + year else year)
      in TimeClip (MakeDay yr month day * msPerDay + MakeTime hour minute second - LocalTZA))"

definition getFullYear :: "int \<Rightarrow> int" where
  "getFullYear t = fst (civil_from_days ((t + LocalTZA) div msPerDay))"

definition getMonth :: "int \<Rightarrow> int" where
  "getMonth t = fst (snd (civil_from_days ((t + LocalTZA) div msPerDay))) - 1"

definition getDate :: "int \<Rightarrow> int" where
  "getDate t = snd (snd (civil_from_days ((t + LocalTZA) div msPerDay)))"

definition getHours :: "int \<Rightarrow> int" where
  "getHours t = ((t + LocalTZA) mod msPerDay) div 3600000"

definition getMinutes :: "int \<Rightarrow> int" where
  "getMinutes t = ((t + LocalTZA) mod 3600000) div 60000"

section \<open>Data model (types.ts)\<close>

datatype MessageType = Text | Media | System

datatype MediaType = Image | Video | Audio | Document

text \<open>
  The interface \<open>Message\<close>; its fields carry the prefix \<open>msg_\<close>. An optional field is
  an \<open>option\<close>, \<open>None\<close> being absent.
\<close>

record Message =
  msg_id :: string
  msg_timestamp :: int
  msg_sender :: "string option"
  msg_content :: string
  msg_type :: MessageType
  msg_mediaUrl :: "string option"
  msg_mediaType :: "MediaType option"
  msg_mediaFileName :: "string option"

text \<open>
  A browser \<open>File\<close>: its name and its bytes (\<open>size\<close> is their number, an integer as
  all sizes and limits are). Read as text, the bytes are the code units of the string.
  \<open>file_readError\<close> is the message of the error a \<open>FileReader\<close> ends with on this file,
  if it fails.
\<close>

record File =
  file_name :: string
  file_content :: string
  file_readError :: "string option"

definition file_size :: "File \<Rightarrow> int" where
  "file_size f = int (length (file_content f))"

datatype js_error =
    TypeError           \<comment> \<open>a property read on \<open>undefined\<close>\<close>
  | NotANumber          \<comment> \<open>a number that is NaN, which the model of a timestamp excludes\<close>
  | FailedToReadFile    \<comment> \<open>\<open>new Error('Failed to read file')\<close>\<close>

section \<open>The log parser\<close>

definition space :: rx where "space = Cls is_space"
definition dot :: rx where "dot = Cls is_dot"

definition TIMESTAMP_PATTERNS :: "rx list" where
  "TIMESTAMP_PATTERNS =
    [ \<comment> \<open>[DD/MM/YYYY, HH:MM:SS] or [DD/MM/YY, HH:MM:SS]\<close>
      seqs [Bol, Opt (Chr CHR ''[''), Grp 1 (Digits 1 2), Chr CHR ''/'', Grp 2 (Digits 1 2),
            Chr CHR ''/'', Grp 3 (Digits 2 4), Opt (Chr CHR '',''), Plus space,
            Grp 4 (Digits 1 2), Chr CHR '':'', Grp 5 (Digits 2 2),
            Opt (Seq (Chr CHR '':'') (Grp 6 (Digits 2 2))),
            Opt (Chr CHR '']''), Star space, Opt (Chr CHR ''-''), Star space],
      \<comment> \<open>[M/D/YY, H:MM AM/PM]\<close>
      seqs [Bol, Opt (Chr CHR ''[''), Grp 1 (Digits 1 2), Chr CHR ''/'', Grp 2 (Digits 1 2),
            Chr CHR ''/'', Grp 3 (Digits 2 4), Opt (Chr CHR '',''), Plus space,
            Grp 4 (Digits 1 2), Chr CHR '':'', Grp 5 (Digits 2 2), Star space,
            Grp 6 (alts [Str ''AM'', Str ''PM'', Str ''am'', Str ''pm'']),
            Opt (Chr CHR '']''), Star space, Opt (Chr CHR ''-''), Star space],
      \<comment> \<open>[DD.MM.YY, HH:MM:SS]\<close>
      seqs [Bol, Opt (Chr CHR ''[''), Grp 1 (Digits 1 2), Chr CHR ''.'', Grp 2 (Digits 1 2),
            Chr CHR ''.'', Grp 3 (Digits 2 4), Opt (Chr CHR '',''), Plus space,
            Grp 4 (Digits 1 2), Chr CHR '':'', Grp 5 (Digits 2 2),
            Opt (Seq (Chr CHR '':'') (Grp 6 (Digits 2 2))),
            Opt (Chr CHR '']''), Star space, Opt (Chr CHR ''-''), Star space],
      \<comment> \<open>DD/MM/YYYY, HH:MM - (without brackets)\<close>
      seqs [Bol, Grp 1 (Digits 1 2), Chr CHR ''/'', Grp 2 (Digits 1 2),
            Chr CHR ''/'', Grp 3 (Digits 2 4), Opt (Chr CHR '',''), Plus space,
            Grp 4 (Digits 1 2), Chr CHR '':'', Grp 5 (Digits 2 2),
            Opt (Seq (Chr CHR '':'') (Grp 6 (Digits 2 2))),
            Star space, Chr CHR ''-'', Star space] ]"

definition SYSTEM_MESSAGE_PATTERNS :: "rx list" where
  "SYSTEM_MESSAGE_PATTERNS =
    [ seqs [Bol, Str ''Messages and calls are end-to-end encrypted''],
      seqs [Bol, Str ''You deleted this message''],
      seqs [Bol, Str ''This message was deleted''],
      seqs [Bol, Str ''You created group''],
      seqs [Bol, Str ''You added''],
      seqs [Bol, Str ''You removed''],
      seqs [Bol, Str ''You left''],
      seqs [Bol, Plus dot, Str '' created group''],
      seqs [Bol, Plus dot, Str '' added '', Plus dot],
      seqs [Bol, Plus dot, Str '' removed '', Plus dot],
      seqs [Bol, Plus dot, Str '' left'', Eol],
      seqs [Bol, Plus dot, Str '' changed the subject''],
      seqs [Bol, Plus dot, Str ('' changed this group'' @ [CHR 0x27] @ ''s icon'')],
      seqs [Bol, Plus dot, Str '' changed the group description''],
      seqs [Bol, Str ''Security code changed''],
      seqs [Bol, Str ''Missed '', Plus dot, Str '' call''] ]"

definition ATTACHED_EXTS :: "string list" where
  \<comment> \<open>the alternatives of the filename patterns of the parser, in their order\<close>
  "ATTACHED_EXTS =
    [''jpg'', ''jpeg'', ''png'', ''gif'', ''webp'', ''heic'', ''mp4'', ''mov'', ''avi'', ''mkv'',
     ''webm'', ''3gp'', ''mp3'', ''ogg'', ''opus'', ''wav'', ''m4a'', ''aac'', ''pdf'', ''doc'',
     ''docx'', ''xls'', ''xlsx'', ''ppt'', ''pptx'']"

definition MEDIA_PATTERNS :: "rx list" where
  "MEDIA_PATTERNS =
    [ seqs [Bol, Str ''<Media omitted>'', Eol],
      seqs [Bol, StrI ''image omitted'', Eol],
      seqs [Bol, StrI ''video omitted'', Eol],
      seqs [Bol, StrI ''audio omitted'', Eol],
      seqs [Bol, StrI ''document omitted'', Eol],
      seqs [Bol, StrI ''sticker omitted'', Eol],
      seqs [Bol, StrI ''GIF omitted'', Eol],
      seqs [Bol, StrI ''(file attached)'', Eol],
      seqs [Bol, Plus dot, Chr CHR ''.'', Grp 1 (alts (map StrI ATTACHED_EXTS)), Star space,
            StrI ''(file attached)'', Eol] ]"

definition parseTimestamp :: "rmatch \<Rightarrow> nat \<Rightarrow> js_error + int" where
  "parseTimestamp m patternIndex =
     (case (Option.bind (grp m 1) parseInt, Option.bind (grp m 2) parseInt,
            Option.bind (grp m 3) parseInt, Option.bind (grp m 4) parseInt,
            Option.bind (grp m 5) parseInt) of
        (Some day, Some month, Some year0, Some hour0, Some minute) \<Rightarrow>
          (let hs =
                 (if patternIndex = 1 then
                    \<comment> \<open>AM/PM format\<close>
                    (case grp m 6 of
                       None \<Rightarrow> Inl TypeError
                     | Some ampm \<Rightarrow>
                         (let isPM = (toUpperCase ampm = ''PM'');
                              hour1 = (if isPM \<and> hour0 \<noteq> 12 then hour0 + 12 else hour0);
                              hour2 = (if \<not> isPM \<and> hour1 = 12 then 0 else hour1)
                          in Inr (hour2, 0)))
                  else
                    \<comment> \<open>24-hour format\<close>
                    (case grp m 6 of
                       None \<Rightarrow> Inr (hour0, 0)
                     | Some s6 \<Rightarrow>
                         if s6 = [] then Inr (hour0, 0)
                         else (case parseInt s6 of
                                 None \<Rightarrow> Inl NotANumber
                               | Some second \<Rightarrow> Inr (hour0, second))))
           in case hs of
                Inl e \<Rightarrow> Inl e
              | Inr (hour, second) \<Rightarrow>
                  (let \<comment> \<open>Handle 2-digit years\<close>
                       year = (if year0 < 100
                               then year0 + (if year0 < 50 then 2000 else 1900) else year0)
                   in case Date_getTime year (month - 1) day hour minute second of
                        None \<Rightarrow> Inl NotANumber
                      | Some t \<Rightarrow> Inr t))
      | _ \<Rightarrow> Inl NotANumber)"

fun tryPatterns :: "string \<Rightarrow> rx list \<Rightarrow> nat \<Rightarrow> js_error + (int \<times> string) option" where
  \<comment> \<open>the loop of \<open>tryParseMessageLine\<close> from index \<open>i\<close> on, over the patterns left\<close>
  "tryPatterns line [] i = Inr None"
| "tryPatterns line (pattern # rest) i =
     (case rx_match line pattern of
        Some m \<Rightarrow>
          (case parseTimestamp m i of
             Inl e \<Rightarrow> Inl e
           | Inr timestamp \<Rightarrow> Inr (Some (timestamp, drop (length (m_text m)) line)))
      | None \<Rightarrow> tryPatterns line rest (Suc i))"

definition tryParseMessageLine :: "string \<Rightarrow> js_error + (int \<times> string) option" where
  "tryParseMessageLine line = tryPatterns line TIMESTAMP_PATTERNS 0"

definition isSystemMessage :: "string \<Rightarrow> bool" where
  "isSystemMessage content = list_ex (\<lambda>pattern. rx_test pattern content) SYSTEM_MESSAGE_PATTERNS"

definition isMediaMessage :: "string \<Rightarrow> bool" where
  "isMediaMessage content = list_ex (\<lambda>pattern. rx_test pattern content) MEDIA_PATTERNS"

definition extractMediaFileName :: "string \<Rightarrow> string option" where
  "extractMediaFileName content =
     (case rx_match content
             (seqs [Bol,
                    Grp 1 (seqs [Plus dot, Chr CHR ''.'', Grp 2 (alts (map StrI ATTACHED_EXTS))]),
                    Star space, StrI ''(file attached)'', Eol]) of
        Some m \<Rightarrow> map_option trim (grp m 1)
      | None \<Rightarrow> None)"

definition getMediaTypeFromFilename :: "string \<Rightarrow> MediaType option" where
  "getMediaTypeFromFilename filename =
     (let ext = toLowerCase (last (split_on CHR ''.'' filename))
      in if ext = [] then None
         else if ext \<in> set [''jpg'', ''jpeg'', ''png'', ''gif'', ''webp'', ''heic'', ''heif'']
           then Some Image
         else if ext \<in> set [''mp4'', ''mov'', ''avi'', ''mkv'', ''webm'', ''3gp''] then Some Video
         else if ext \<in> set [''mp3'', ''ogg'', ''opus'', ''wav'', ''m4a'', ''aac''] then Some Audio
         else Some Document)"

record ParseResult =
  pr_messages :: "Message list"
  pr_chatName :: string
  pr_isGroup :: bool

text \<open>
  The variables of the \<open>onload\<close> handler that the loop over the lines changes: the
  output array, the message that is open, and the set of senders (kept as a list without
  repetitions, so that its length is \<open>senderSet.size\<close>).
\<close>

record pstate =
  ps_messages :: "Message list"
  ps_currentMessage :: "Message option"
  ps_senderSet :: "string list"

definition closeCurrent :: "pstate \<Rightarrow> Message list" where
  \<comment> \<open>\<open>if (currentMessage) { currentMessage.content = currentMessage.content.trim();
      messages.push(currentMessage); }\<close>\<close>
  "closeCurrent st =
     (case ps_currentMessage st of
        None \<Rightarrow> ps_messages st
      | Some cur \<Rightarrow> ps_messages st @ [cur\<lparr>msg_content := trim (msg_content cur)\<rparr>])"

definition senderMatch_rx :: rx where
  \<comment> \<open>\<open>/^([^:]+):\s*(.*)$/\<close>\<close>
  "senderMatch_rx =
     seqs [Bol, Grp 1 (Plus (Cls (\<lambda>c. c \<noteq> CHR '':''))), Chr CHR '':'', Star space,
           Grp 2 (Star dot), Eol]"

definition message_id :: "int \<Rightarrow> nat \<Rightarrow> string" where
  \<comment> \<open>the template \<open>msg-${timestamp}-${messages.length}\<close>\<close>
  "message_id timestamp n = ''msg-'' @ show_int timestamp @ ''-'' @ show_nat n"

definition processLine :: "pstate \<Rightarrow> string \<Rightarrow> js_error + pstate" where
  \<comment> \<open>the body of the inner loop, for the line \<open>lines[i]\<close>\<close>
  "processLine st raw =
     (let line = trim raw in
      if line = [] then
        \<comment> \<open>Skip empty lines\<close>
        (case ps_currentMessage st of
           Some cur \<Rightarrow>
             Inr (st\<lparr>ps_currentMessage := Some (cur\<lparr>msg_content := msg_content cur @ [CHR 0x0A]\<rparr>)\<rparr>)
         | None \<Rightarrow> Inr st)
      else
        (case tryParseMessageLine line of
           Inl e \<Rightarrow> Inl e
         | Inr (Some (timestamp, remainder)) \<Rightarrow>
             (let messages = closeCurrent st in
              case rx_match remainder senderMatch_rx of
                Some senderMatch \<Rightarrow>
                  \<comment> \<open>Regular message with sender\<close>
                  (case (grp senderMatch 1, grp senderMatch 2) of
                     (Some g1, Some g2) \<Rightarrow>
                       (let sender = trim g1;
                            content = trim g2;
                            isMedia = isMediaMessage content;
                            mediaFileName = (if isMedia then extractMediaFileName content else None);
                            mediaType = (case mediaFileName of
                                           None \<Rightarrow> None
                                         | Some fn \<Rightarrow> if fn = [] then None
                                                      else getMediaTypeFromFilename fn)
                        in Inr \<lparr>ps_messages = messages,
                                ps_currentMessage = Some
                                  \<lparr>msg_id = message_id timestamp (length messages),
                                   msg_timestamp = timestamp,
                                   msg_sender = Some sender,
                                   msg_content = content,
                                   msg_type = (if isMedia then Media else Text),
                                   msg_mediaUrl = None,
                                   msg_mediaType = mediaType,
                                   msg_mediaFileName =
                                     (case mediaFileName of
                                        None \<Rightarrow> None
                                      | Some fn \<Rightarrow> if fn = [] then None else Some fn)\<rparr>,
                                ps_senderSet = List.insert sender (ps_senderSet st)\<rparr>)
                   | _ \<Rightarrow> Inl TypeError)
              | None \<Rightarrow>
                  \<comment> \<open>System message or message without sender\<close>
                  (let content = trim remainder
                   in Inr \<lparr>ps_messages = messages,
                           ps_currentMessage = Some
                             \<lparr>msg_id = message_id timestamp (length messages),
                              msg_timestamp = timestamp,
                              msg_sender = None,
                              msg_content = content,
                              msg_type = (if isSystemMessage content then System else Text),
                              msg_mediaUrl = None,
                              msg_mediaType = None,
                              msg_mediaFileName = None\<rparr>,
                           ps_senderSet = ps_senderSet st\<rparr>))
         | Inr None \<Rightarrow>
             \<comment> \<open>Continuation of previous message\<close>
             (case ps_currentMessage st of
                Some cur \<Rightarrow>
                  Inr (st\<lparr>ps_currentMessage :=
                            Some (cur\<lparr>msg_content := msg_content cur @ [CHR 0x0A] @ line\<rparr>)\<rparr>)
              | None \<Rightarrow> Inr st)))"

fun processLines :: "pstate \<Rightarrow> string list \<Rightarrow> js_error + pstate" where
  \<comment> \<open>the inner loop over one chunk; an exception ends it\<close>
  "processLines st [] = Inr st"
| "processLines st (raw # rest) =
     (case processLine st raw of
        Inl e \<Rightarrow> Inl e
      | Inr st' \<Rightarrow> processLines st' rest)"

definition PARSE_CHUNK_SIZE :: nat where
  \<comment> \<open>\<open>CHUNK_SIZE\<close> of \<open>parseWhatsAppChat\<close>\<close>
  "PARSE_CHUNK_SIZE = 2000"

function parseChunks :: "string list \<Rightarrow> nat \<Rightarrow> pstate \<Rightarrow> js_error + pstate" where
  \<comment> \<open>the outer loop, from \<open>chunkStart\<close> on\<close>
  "parseChunks lines chunkStart st =
     (if chunkStart < length lines then
        (let chunkEnd = min (chunkStart + PARSE_CHUNK_SIZE) (length lines)
         in case processLines st (take (chunkEnd - chunkStart) (drop chunkStart lines)) of
              Inl e \<Rightarrow> Inl e
            | Inr st' \<Rightarrow> parseChunks lines (chunkStart + PARSE_CHUNK_SIZE) st')
      else Inr st)"
  by pat_completeness auto
termination
  by (relation "measure (\<lambda>(lines, chunkStart, st). length lines - chunkStart)")
     (auto simp: PARSE_CHUNK_SIZE_def)

declare parseChunks.simps [simp del]

definition chatNameGuess :: "string \<Rightarrow> string" where
  \<comment> \<open>\<open>file.name.replace(/\.txt$/i, '').replace(/^WhatsApp Chat with /, '')\<close>\<close>
  "chatNameGuess name =
     (let n1 = (if endsWith (toUpperCase name) ''.TXT'' then take (length name - 4) name else name)
      in if startsWith n1 ''WhatsApp Chat with '' then drop (length ''WhatsApp Chat with '') n1
         else n1)"

definition parseWhatsAppChat :: "File \<Rightarrow> js_error + ParseResult" where
  \<comment> \<open>the value the promise resolves with, or the error it rejects with; the progress
      callbacks of the parser are not part of the model\<close>
  "parseWhatsAppChat file =
     (case file_readError file of
        Some err \<Rightarrow> Inl FailedToReadFile
      | None \<Rightarrow>
          (let lines = split_on (CHR 0x0A) (file_content file)
           in case parseChunks lines 0
                     \<lparr>ps_messages = [], ps_currentMessage = None, ps_senderSet = []\<rparr> of
                Inl e \<Rightarrow> Inl e
              | Inr st \<Rightarrow>
                  Inr \<lparr>pr_messages = closeCurrent st,
                       pr_chatName = (let g = chatNameGuess (file_name file)
                                      in if g = [] then ''Imported Chat'' else g),
                       pr_isGroup = (length (ps_senderSet st) > 2)\<rparr>))"

section \<open>The media correlator\<close>

text \<open>
  The interface \<open>MediaFile\<close> (prefix \<open>mf_\<close>) and the result of the correlator.
\<close>

record MediaFile =
  mf_file :: File
  mf_type :: MediaType
  mf_timestamp :: "int option"
  mf_matched :: bool
  mf_messageId :: "string option"

record MediaMatchResult =
  matchedMessages :: "Message list"
  unmatchedMedia :: "File list"
  matchCount :: nat
  totalMedia :: nat

definition WHATSAPP_MEDIA_PATTERN :: rx where
  \<comment> \<open>\<open>/^(IMG|VID|AUD|PTT|DOC|STK)-(\d{8})-WA(\d+)\./i\<close>\<close>
  "WHATSAPP_MEDIA_PATTERN =
     seqs [Bol, Grp 1 (alts (map StrI [''IMG'', ''VID'', ''AUD'', ''PTT'', ''DOC'', ''STK''])),
           Chr CHR ''-'', Grp 2 (Digits 8 8), StrI ''-WA'', Grp 3 (Plus (Cls is_digit)),
           Chr CHR ''.'']"

definition WHATSAPP_ALT_PATTERN :: rx where
  \<comment> \<open>\<open>/^WhatsApp\s+(Image|Video|Audio|Document)\s+(\d{4}-\d{2}-\d{2})\s+at\s+(\d{1,2}\.\d{2}\.\d{2})/i\<close>\<close>
  "WHATSAPP_ALT_PATTERN =
     seqs [Bol, StrI ''WhatsApp'', Plus space,
           Grp 1 (alts (map StrI [''Image'', ''Video'', ''Audio'', ''Document''])), Plus space,
           Grp 2 (seqs [Digits 4 4, Chr CHR ''-'', Digits 2 2, Chr CHR ''-'', Digits 2 2]),
           Plus space, StrI ''at'', Plus space,
           Grp 3 (seqs [Digits 1 2, Chr CHR ''.'', Digits 2 2, Chr CHR ''.'', Digits 2 2])]"

definition EXTENSION_TO_TYPE :: "(string \<times> MediaType) list" where
  "EXTENSION_TO_TYPE =
    [(''jpg'', Image), (''jpeg'', Image), (''png'', Image), (''gif'', Image),
     (''webp'', Image), (''heic'', Image), (''heif'', Image),
     (''mp4'', Video), (''mov'', Video), (''avi'', Video), (''mkv'', Video),
     (''webm'', Video), (''3gp'', Video),
     (''mp3'', Audio), (''ogg'', Audio), (''opus'', Audio), (''wav'', Audio),
     (''m4a'', Audio), (''aac'', Audio),
     (''pdf'', Document), (''doc'', Document), (''docx'', Document),
     (''xls'', Document), (''xlsx'', Document), (''ppt'', Document), (''pptx'', Document),
     (''txt'', Document)]"

definition substring :: "string \<Rightarrow> nat \<Rightarrow> nat \<Rightarrow> string" where
  \<comment> \<open>\<open>s.substring(a, b)\<close> for \<open>a \<le> b\<close>\<close>
  "substring s a b = take (b - a) (drop a s)"

definition extractTimestampFromFilename :: "string \<Rightarrow> int option" where
  \<comment> \<open>\<open>None\<close> is \<open>null\<close> or NaN, which the one caller treats alike (\<open>|| undefined\<close>)\<close>
  "extractTimestampFromFilename filename =
     (case rx_match filename WHATSAPP_MEDIA_PATTERN of
        Some waMatch \<Rightarrow>
          (case grp waMatch 2 of
             None \<Rightarrow> None
           | Some dateStr \<Rightarrow>
               (case (parseInt (substring dateStr 0 4), parseInt (substring dateStr 4 6),
                      parseInt (substring dateStr 6 8)) of
                  (Some year, Some month1, Some day) \<Rightarrow> Date_getTime year (month1 - 1) day 0 0 0
                | _ \<Rightarrow> None))
      | None \<Rightarrow>
          (case rx_match filename WHATSAPP_ALT_PATTERN of
             Some altMatch \<Rightarrow>
               (case (grp altMatch 2, grp altMatch 3) of
                  (Some dateStr, Some timeStr) \<Rightarrow>
                    (case (map parseInt (split_on CHR ''-'' dateStr),
                           map parseInt (split_on CHR ''.'' timeStr)) of
                       ([Some year, Some month, Some day], [Some hour, Some minute, Some second]) \<Rightarrow>
                         Date_getTime year (month - 1) day hour minute second
                     | _ \<Rightarrow> None)
                | _ \<Rightarrow> None)
           | None \<Rightarrow> None))"

definition getMediaType :: "string \<Rightarrow> MediaType" where
  \<comment> \<open>\<open>EXTENSION_TO_TYPE[ext] || 'document'\<close>; the keys \<open>constructor\<close> and \<open>__proto__\<close>
      that a plain object inherits are not modelled\<close>
  "getMediaType filename =
     (let ext = toLowerCase (last (split_on CHR ''.'' filename))
      in case map_of EXTENSION_TO_TYPE ext of Some t \<Rightarrow> t | None \<Rightarrow> Document)"

text \<open>
  A \<open>Map\<close> is an association list in insertion order: \<open>set\<close> on a key that is present
  replaces the value where it stands (\<^const>\<open>AList.update\<close>). The \<open>MediaFile\<close> objects
  are shared between the map and the arrays derived from it, so the arrays are modelled
  as lists of keys of the map, and a write to an object as a write to the map.
\<close>

definition buildMediaLookup :: "File list \<Rightarrow> (string \<times> MediaFile) list" where
  "buildMediaLookup mediaFiles =
     fold (\<lambda>file lookup.
             AList.update (toLowerCase (file_name file))
               \<lparr>mf_file = file,
                mf_type = getMediaType (file_name file),
                mf_timestamp = (case extractTimestampFromFilename (file_name file) of
                                  None \<Rightarrow> None
                                | Some t \<Rightarrow> if t = 0 then None else Some t),
                mf_matched = False,
                mf_messageId = None\<rparr> lookup)
          mediaFiles []"

definition REFERENCED_EXTS1 :: "string list" where
  "REFERENCED_EXTS1 =
    [''jpg'', ''jpeg'', ''png'', ''gif'', ''webp'', ''mp4'', ''mov'', ''mp3'', ''ogg'', ''opus'',
     ''pdf'', ''doc'', ''docx'']"

definition REFERENCED_EXTS2 :: "string list" where
  "REFERENCED_EXTS2 =
    [''jpg'', ''jpeg'', ''png'', ''gif'', ''webp'', ''mp4'', ''mov'', ''mp3'', ''ogg'', ''opus'',
     ''pdf'']"

definition referenced_patterns :: "rx list" where
  \<comment> \<open>the array \<open>patterns\<close> of \<open>findReferencedFilename\<close>\<close>
  "referenced_patterns =
    [ seqs [Grp 1 (seqs [Plus (Cls (\<lambda>c. \<not> is_space c \<and> c \<noteq> CHR ''<'' \<and> c \<noteq> CHR ''>'')),
                         Chr CHR ''.'', Grp 2 (alts (map StrI REFERENCED_EXTS1))]),
            Star space, StrI ''(file attached)''],
      seqs [Bol, Grp 1 (seqs [Rep 3 (Some 3) (Cls is_ascii_letter), Chr CHR ''-'', Digits 8 8,
                              StrI ''-WA'', Plus (Cls is_digit), Chr CHR ''.'',
                              Grp 2 (alts (map StrI REFERENCED_EXTS2))])] ]"

fun firstGroup1 :: "string \<Rightarrow> rx list \<Rightarrow> string option" where
  \<comment> \<open>the loop of \<open>findReferencedFilename\<close>\<close>
  "firstGroup1 content [] = None"
| "firstGroup1 content (pattern # rest) =
     (case rx_match content pattern of
        Some m \<Rightarrow> grp m 1
      | None \<Rightarrow> firstGroup1 content rest)"

definition findReferencedFilename :: "string \<Rightarrow> string option" where
  "findReferencedFilename content = firstGroup1 content referenced_patterns"

definition setMatched :: "string \<Rightarrow> string \<Rightarrow> (string \<times> MediaFile) list \<Rightarrow> (string \<times> MediaFile) list" where
  \<comment> \<open>\<open>mediaFile.matched = true; mediaFile.messageId = msg.id\<close> on the object stored
      under the key\<close>
  "setMatched key msgId lookup =
     map (\<lambda>(k, mf). if k = key then (k, mf\<lparr>mf_matched := True, mf_messageId := Some msgId\<rparr>)
                     else (k, mf)) lookup"

record mstate =
  st_messages :: "Message list"                \<comment> \<open>\<open>matchedMessages\<close>\<close>
  st_lookup :: "(string \<times> MediaFile) list"      \<comment> \<open>\<open>mediaLookup\<close>\<close>
  st_used :: "string list"                      \<comment> \<open>\<open>usedMedia\<close>\<close>

definition falsy :: "string option \<Rightarrow> bool" where
  \<comment> \<open>\<open>!x\<close> for an optional string: absent or empty\<close>
  "falsy x = (case x of None \<Rightarrow> True | Some s \<Rightarrow> s = [])"

definition strategy1_step :: "nat \<Rightarrow> mstate \<Rightarrow> mstate" where
  \<comment> \<open>Strategy 1, the body of the loop at index \<open>i\<close>\<close>
  "strategy1_step i st =
     (let msg = st_messages st ! i in
      if msg_type msg \<noteq> Media then st
      else
        (case findReferencedFilename (msg_content msg) of
           None \<Rightarrow> st
         | Some referencedFile \<Rightarrow>
             if referencedFile = [] then st
             else
               (case map_of (st_lookup st) (toLowerCase referencedFile) of
                  None \<Rightarrow> st
                | Some mediaFile \<Rightarrow>
                    if mf_matched mediaFile then st
                    else
                      \<lparr>st_messages = (st_messages st)
                         [i := msg\<lparr>msg_mediaFileName := Some (file_name (mf_file mediaFile)),
                                  msg_mediaType := Some (mf_type mediaFile)\<rparr>],
                       st_lookup = setMatched (toLowerCase referencedFile) (msg_id msg) (st_lookup st),
                       st_used = List.insert (toLowerCase referencedFile) (st_used st)\<rparr>)))"

definition localMidnight :: "int \<Rightarrow> int option" where
  \<comment> \<open>\<open>new Date(d.getFullYear(), d.getMonth(), d.getDate()).getTime()\<close> for
      \<open>d = new Date(t)\<close>; \<open>None\<close> is NaN\<close>
  "localMidnight t =
     (case TimeClip t of
        None \<Rightarrow> None
      | Some t' \<Rightarrow> Date_getTime (getFullYear t') (getMonth t') (getDate t') 0 0 0)"

definition sameDay :: "int option \<Rightarrow> int option \<Rightarrow> bool" where
  \<comment> \<open>\<open>mediaDay === msgDay\<close>; NaN equals nothing\<close>
  "sameDay a b = (case (a, b) of (Some x, Some y) \<Rightarrow> x = y | _ \<Rightarrow> False)"

definition isCandidate :: "(string \<times> MediaFile) list \<Rightarrow> int option \<Rightarrow> string \<Rightarrow> bool" where
  \<comment> \<open>the predicate of the filter that computes \<open>candidates\<close>, on the object under key \<open>k\<close>\<close>
  "isCandidate lookup msgDay k =
     (case map_of lookup k of
        None \<Rightarrow> False
      | Some m \<Rightarrow>
          (case mf_timestamp m of
             None \<Rightarrow> False
           | Some ts \<Rightarrow> \<not> mf_matched m \<and> sameDay (localMidnight ts) msgDay))"

definition strategy2_step :: "string list \<Rightarrow> Message \<times> nat \<Rightarrow> mstate \<Rightarrow> mstate" where
  \<comment> \<open>Strategy 2, the body of the loop for one entry of \<open>unmatchedMediaMsgs\<close>\<close>
  "strategy2_step unmatchedWithTimestamp entry st =
     (let msg = fst entry; idx = snd entry;
          msgDay = localMidnight (msg_timestamp msg);
          candidates = filter (isCandidate (st_lookup st) msgDay) unmatchedWithTimestamp
      in case candidates of
           [] \<Rightarrow> st
         | k # _ \<Rightarrow>
             (case map_of (st_lookup st) k of
                None \<Rightarrow> st
              | Some match \<Rightarrow>
                  \<lparr>st_messages = (st_messages st)
                     [idx := msg\<lparr>msg_mediaFileName := Some (file_name (mf_file match)),
                                msg_mediaType := Some (mf_type match)\<rparr>],
                   st_lookup = setMatched k (msg_id msg) (st_lookup st),
                   st_used = List.insert (toLowerCase (file_name (mf_file match))) (st_used st)\<rparr>))"

definition timestampOr0 :: "(string \<times> MediaFile) list \<Rightarrow> string \<Rightarrow> int" where
  \<comment> \<open>\<open>m.timestamp || 0\<close> for the object under key \<open>k\<close>\<close>
  "timestampOr0 lookup k =
     (case map_of lookup k of
        Some m \<Rightarrow> (case mf_timestamp m of Some t \<Rightarrow> t | None \<Rightarrow> 0)
      | None \<Rightarrow> 0)"

definition matchMediaToMessages :: "Message list \<Rightarrow> File list \<Rightarrow> MediaMatchResult" where
  "matchMediaToMessages messages mediaFiles =
     (if length mediaFiles = 0 then
        \<lparr>matchedMessages = messages, unmatchedMedia = [], matchCount = 0, totalMedia = 0\<rparr>
      else
        (let mediaLookup = buildMediaLookup mediaFiles;
             \<comment> \<open>Strategy 1: Direct filename reference in message content\<close>
             st1 = fold strategy1_step [0 ..< length messages]
                     \<lparr>st_messages = messages, st_lookup = mediaLookup, st_used = []\<rparr>;
             \<comment> \<open>Strategy 2: Timestamp-based matching (same day, ordered by sequence)\<close>
             unmatched = filter (\<lambda>(k, m). \<not> mf_matched m) (st_lookup st1);
             unmatchedWithTimestamp =
               sort_key (timestampOr0 (st_lookup st1))
                 (map fst (filter (\<lambda>(k, m). mf_timestamp m \<noteq> None) unmatched));
             unmatchedMediaMsgs =
               filter (\<lambda>(msg, idx). msg_type msg = Media \<and> falsy (msg_mediaFileName msg))
                 (zip (st_messages st1) [0 ..< length (st_messages st1)]);
             st2 = fold (strategy2_step unmatchedWithTimestamp) unmatchedMediaMsgs st1
         in \<lparr>matchedMessages = st_messages st2,
             unmatchedMedia = map (\<lambda>(k, m). mf_file m) (filter (\<lambda>(k, m). \<not> mf_matched m) (st_lookup st2)),
             matchCount = length (filter (\<lambda>(k, m). mf_matched m) (st_lookup st2)),
             totalMedia = length mediaFiles\<rparr>))"

section \<open>Chunked persistence (storage)\<close>

record Chat =
  chat_id :: string
  chat_name :: string
  chat_messageCount :: nat
  chat_lastOpened :: int
  chat_created :: int
  chat_isGroup :: bool
  chat_currentViewAs :: "string option"
  chat_lastMessageTimestamp :: "int option"

record StoredMessage = Message +
  chatId :: string

record MediaRecord =
  media_messageId :: string
  media_blob :: string
  media_fileName :: string
  media_type :: string

text \<open>
  An object store with a key path holds at most one record per key, the key being read
  from the record. It is a list of records; \<open>put\<close> replaces the record with the same
  key or adds the record, \<open>delete\<close> removes it.
\<close>

fun idb_put :: "('v \<Rightarrow> string) \<Rightarrow> 'v \<Rightarrow> 'v list \<Rightarrow> 'v list" where
  "idb_put keyPath v [] = [v]"
| "idb_put keyPath v (w # ws) =
     (if keyPath w = keyPath v then v # ws else w # idb_put keyPath v ws)"

definition idb_delete :: "('v \<Rightarrow> string) \<Rightarrow> string \<Rightarrow> 'v list \<Rightarrow> 'v list" where
  "idb_delete keyPath k store = filter (\<lambda>w. keyPath w \<noteq> k) store"

record DB =
  db_chats :: "Chat list"               \<comment> \<open>key path \<open>id\<close>\<close>
  db_messages :: "StoredMessage list"   \<comment> \<open>key path \<open>id\<close>\<close>
  db_media :: "MediaRecord list"        \<comment> \<open>key path \<open>messageId\<close>\<close>

definition toStored :: "string \<Rightarrow> Message \<Rightarrow> StoredMessage" where
  \<comment> \<open>\<open>{ ...msg, chatId }\<close>\<close>
  "toStored cid msg = Message.extend msg (StoredMessage.fields cid)"

definition putMessage :: "string \<Rightarrow> Message \<Rightarrow> DB \<Rightarrow> DB" where
  \<comment> \<open>\<open>tx.store.put({ ...msg, chatId })\<close>\<close>
  "putMessage cid msg db = db\<lparr>db_messages := idb_put msg_id (toStored cid msg) (db_messages db)\<rparr>"

text \<open>
  The calls of the progress callback are recorded, in order, as pairs of its two
  arguments. The flag \<open>onProgress\<close> says whether the caller passed a callback. The chunk
  size is a parameter of the loops; the functions of the program fix it. A loop that
  does not end returns \<open>None\<close>.

  An operation on the store can fail. Which ones do is given by \<open>fails\<close>, a predicate on
  the operations that the environment fixes. The functions await every operation without
  a \<open>catch\<close>, so a failure ends the run at once: the promise rejects, and no later
  statement of the function runs. A transaction that fails is aborted as a whole and leaves
  the store as it was before the batch; the batches committed before it stay. An outcome
  carries the store and the calls of the callback at the end of the run.
\<close>

datatype db_op =
    OpenDB              \<comment> \<open>\<open>await getDB()\<close>\<close>
  | DeleteChatRecord    \<comment> \<open>\<open>await db.delete('chats', chatId)\<close>\<close>
  | ReadMessageIds      \<comment> \<open>the walk of the cursor over the index \<open>by-chatId\<close>\<close>
  | Transaction nat     \<comment> \<open>the transaction of the batch that starts at this index, up to
                            \<open>await tx.done\<close>\<close>

datatype 'a outcome =
    Resolved 'a   \<comment> \<open>the promise resolves\<close>
  | Rejected 'a   \<comment> \<open>the promise rejects\<close>

fun payload :: "'a outcome \<Rightarrow> 'a" where
  "payload (Resolved x) = x"
| "payload (Rejected x) = x"

fun resolved :: "'a outcome \<Rightarrow> bool" where
  "resolved (Resolved x) = True"
| "resolved (Rejected x) = False"

type_synonym progress = "(nat \<times> nat) list"

partial_function (option) saveLoop ::
  "(db_op \<Rightarrow> bool) \<Rightarrow> nat \<Rightarrow> Message list \<Rightarrow> string \<Rightarrow> bool \<Rightarrow> nat \<Rightarrow> DB \<times> progress
     \<Rightarrow> (DB \<times> progress) outcome option"
where
  "saveLoop fails CHUNK_SIZE messages cid onProgress chunkStart st =
     (if chunkStart < length messages then
        (if fails (Transaction chunkStart) then Some (Rejected st)
         else
           (let chunkEnd = min (chunkStart + CHUNK_SIZE) (length messages);
                chunk = take (chunkEnd - chunkStart) (drop chunkStart messages);
                db' = fold (putMessage cid) chunk (fst st);
                calls = (if onProgress then snd st @ [(chunkEnd, length messages)] else snd st)
            in saveLoop fails CHUNK_SIZE messages cid onProgress (chunkStart + CHUNK_SIZE)
                 (db', calls)))
      else Some (Resolved st))"

definition saveMessagesWith ::
  "(db_op \<Rightarrow> bool) \<Rightarrow> nat \<Rightarrow> Message list \<Rightarrow> string \<Rightarrow> bool \<Rightarrow> DB
     \<Rightarrow> (DB \<times> progress) outcome option" where
  "saveMessagesWith fails CHUNK_SIZE messages cid onProgress db =
     (if fails OpenDB then Some (Rejected (db, []))
      else saveLoop fails CHUNK_SIZE messages cid onProgress 0 (db, []))"

definition saveMessages ::
  "(db_op \<Rightarrow> bool) \<Rightarrow> Message list \<Rightarrow> string \<Rightarrow> bool \<Rightarrow> DB
     \<Rightarrow> (DB \<times> progress) outcome option" where
  \<comment> \<open>\<open>const CHUNK_SIZE = 1000\<close>\<close>
  "saveMessages fails = saveMessagesWith fails 1000"

definition deleteBatch :: "string list \<Rightarrow> DB \<Rightarrow> DB" where
  \<comment> \<open>one transaction: \<open>msgStore.delete(msgId); mediaStore.delete(msgId)\<close> for each id\<close>
  "deleteBatch batch db =
     fold (\<lambda>msgId d. d\<lparr>db_messages := idb_delete msg_id msgId (db_messages d),
                        db_media := idb_delete media_messageId msgId (db_media d)\<rparr>) batch db"

partial_function (option) deleteLoop ::
  "(db_op \<Rightarrow> bool) \<Rightarrow> nat \<Rightarrow> string list \<Rightarrow> bool \<Rightarrow> nat \<Rightarrow> DB \<times> progress
     \<Rightarrow> (DB \<times> progress) outcome option"
where
  "deleteLoop fails BATCH_SIZE messageIds onProgress batchStart st =
     (if batchStart < length messageIds then
        (if fails (Transaction batchStart) then Some (Rejected st)
         else
           (let batchEnd = min (batchStart + BATCH_SIZE) (length messageIds);
                batch = take (batchEnd - batchStart) (drop batchStart messageIds);
                db' = deleteBatch batch (fst st);
                calls = (if onProgress then snd st @ [(batchEnd, length messageIds)] else snd st)
            in deleteLoop fails BATCH_SIZE messageIds onProgress (batchStart + BATCH_SIZE)
                 (db', calls)))
      else Some (Resolved st))"

definition deleteChatWith ::
  "(db_op \<Rightarrow> bool) \<Rightarrow> nat \<Rightarrow> string \<Rightarrow> bool \<Rightarrow> DB \<Rightarrow> (DB \<times> progress) outcome option" where
  "deleteChatWith fails BATCH_SIZE cid onProgress db =
     (if fails OpenDB then Some (Rejected (db, []))
      else if fails DeleteChatRecord then Some (Rejected (db, []))
      else
        (let \<comment> \<open>First, delete the chat metadata\<close>
             db1 = db\<lparr>db_chats := idb_delete chat_id cid (db_chats db)\<rparr>
         in if fails ReadMessageIds then Some (Rejected (db1, []))
            else
              (let \<comment> \<open>Collect all message IDs for this chat first: the cursor over the index
                       \<open>by-chatId\<close> visits the records of the chat in the order of their keys\<close>
                   messageIds = sort (map msg_id (filter (\<lambda>m. chatId m = cid) (db_messages db1)));
                   total = length messageIds
               in if total = 0 then Some (Resolved (db1, []))
                  else deleteLoop fails BATCH_SIZE messageIds onProgress 0
                         (db1, if onProgress then [(0, total)] else []))))"

definition deleteChat ::
  "(db_op \<Rightarrow> bool) \<Rightarrow> string \<Rightarrow> bool \<Rightarrow> DB \<Rightarrow> (DB \<times> progress) outcome option" where
  \<comment> \<open>\<open>const BATCH_SIZE = 20000\<close>\<close>
  "deleteChat fails = deleteChatWith fails 20000"

section \<open>Intake validation\<close>

datatype FileType = TxtType | FolderType | ZipType | UnknownType

text \<open>
  The \<open>details\<close> of a verdict. The field \<open>estimatedMessages\<close>, a floating-point estimate,
  is not part of the model.
\<close>

record Details =
  d_txtFile :: "File option"
  d_mediaFiles :: "File list option"

record ValidationResult =
  vr_valid :: bool
  vr_error :: "string option"
  vr_warnings :: "string list"
  vr_fileType :: FileType
  vr_details :: "Details option"

definition ALLOWED_MEDIA_EXTENSIONS :: "string list" where
  "ALLOWED_MEDIA_EXTENSIONS =
    [''jpg'', ''jpeg'', ''png'', ''gif'', ''webp'', ''heic'', ''heif'',
     ''mp4'', ''mov'', ''avi'', ''mkv'', ''webm'', ''3gp'',
     ''mp3'', ''ogg'', ''opus'', ''wav'', ''m4a'', ''aac'',
     ''pdf'', ''doc'', ''docx'', ''xls'', ''xlsx'', ''ppt'', ''pptx'', ''txt'']"

definition MAX_TEXT_FILE_SIZE :: int where
  "MAX_TEXT_FILE_SIZE = 500 * 1024 * 1024"

definition MAX_SINGLE_MEDIA_SIZE :: int where
  "MAX_SINGLE_MEDIA_SIZE = 2 * 1024 * 1024 * 1024"

definition sepClass :: rx where
  \<comment> \<open>\<open>[\/\.]\<close>\<close>
  "sepClass = Cls (\<lambda>c. c = CHR ''/'' \<or> c = CHR ''.'')"

definition WHATSAPP_LINE_PATTERNS :: "rx list" where
  "WHATSAPP_LINE_PATTERNS =
    [ seqs [Bol, Opt (Chr CHR ''[''), Digits 1 2, sepClass, Digits 1 2, sepClass, Digits 2 4,
            Opt (Chr CHR '',''), Plus space, Digits 1 2, Chr CHR '':'', Digits 2 2],
      seqs [Bol, Digits 1 2, sepClass, Digits 1 2, sepClass, Digits 2 4,
            Opt (Chr CHR '',''), Plus space, Digits 1 2, Chr CHR '':'', Digits 2 2] ]"

definition getFileExtension :: "string \<Rightarrow> string" where
  "getFileExtension filename =
     (let parts = split_on CHR ''.'' filename
      in if length parts > 1 then toLowerCase (last parts) else [])"

definition isWhatsAppLine :: "string \<Rightarrow> bool" where
  "isWhatsAppLine line =
     (let trimmed = trim line in list_ex (\<lambda>pattern. rx_test pattern trimmed) WHATSAPP_LINE_PATTERNS)"

definition readFileSample :: "File \<Rightarrow> nat \<Rightarrow> string + string" where
  \<comment> \<open>the first bytes of the file as text, or (\<open>Inl\<close>) the message of the reader's error\<close>
  "readFileSample file bytes =
     (case file_readError file of
        Some err \<Rightarrow> Inl err
      | None \<Rightarrow> Inr (take bytes (file_content file)))"


definition invalid :: "string \<Rightarrow> string list \<Rightarrow> FileType \<Rightarrow> ValidationResult" where
  \<comment> \<open>the object literal \<open>{ valid: false, error, warnings, fileType }\<close>\<close>
  "invalid err warnings ft =
     \<lparr>vr_valid = False, vr_error = Some err, vr_warnings = warnings, vr_fileType = ft,
      vr_details = None\<rparr>"

definition validateTextFile :: "File \<Rightarrow> bool \<Rightarrow> nat \<Rightarrow> ValidationResult" where
  \<comment> \<open>the options are passed as \<open>strictMode\<close> and \<open>minMessages\<close>\<close>
  "validateTextFile file strictMode minMessages =
     (if \<not> endsWith (toLowerCase (file_name file)) ''.txt'' then
        invalid ''File must be a .txt file'' [] UnknownType
      else if file_size file = 0 then
        invalid ''File is empty'' [] TxtType
      else if file_size file > MAX_TEXT_FILE_SIZE then
        invalid ''File is too large (max 500MB)'' [] TxtType
      else
        (case readFileSample file 10000 of
           Inl err \<Rightarrow> invalid (''Failed to read file: '' @ err) [] TxtType
         | Inr sample \<Rightarrow>
             (let lines = filter (\<lambda>line. trim line \<noteq> []) (split_on (CHR 0x0A) sample);
                  validLineCount = length (filter isWhatsAppLine (take 50 lines))
              in if validLineCount = 0 then
                   invalid (''File does not appear to be a WhatsApp chat export. ''
                            @ ''No valid message timestamps found.'') [] TxtType
                 else if strictMode \<and> validLineCount < minMessages then
                   invalid (''File contains too few messages (found '' @ show_nat validLineCount
                            @ '', minimum '' @ show_nat minMessages @ '')'') [] TxtType
                 else
                   \<lparr>vr_valid = True, vr_error = None,
                    vr_warnings =
                      \<comment> \<open>\<open>validLineCount < lines.length * 0.3\<close>, which on these integers
                          is the comparison of \<open>10 * validLineCount\<close> with \<open>3 * lines.length\<close>\<close>
                      (if 10 * validLineCount < 3 * length lines
                       then [''Many lines do not match WhatsApp format - ''
                             @ ''some messages may not be parsed correctly'']
                       else []),
                    vr_fileType = TxtType,
                    vr_details = Some \<lparr>d_txtFile = Some file, d_mediaFiles = None\<rparr>\<rparr>)))"

record fstate =
  fs_txtFiles :: "File list"
  fs_mediaFiles :: "File list"
  fs_skippedFiles :: "string list"
  fs_warnings :: "string list"

definition classifyFile :: "File \<Rightarrow> fstate \<Rightarrow> fstate" where
  \<comment> \<open>the body of the loop of \<open>validateFolder\<close> that separates the files\<close>
  "classifyFile file st =
     (let ext = getFileExtension (file_name file) in
      if ext = ''txt'' then st\<lparr>fs_txtFiles := fs_txtFiles st @ [file]\<rparr>
      else if ext \<in> set ALLOWED_MEDIA_EXTENSIONS then
        (if file_size file > MAX_SINGLE_MEDIA_SIZE then
           st\<lparr>fs_warnings := fs_warnings st
                 @ [''Skipping '' @ file_name file @ '': file too large (max 2GB)''],
              fs_skippedFiles := fs_skippedFiles st @ [file_name file]\<rparr>
         else st\<lparr>fs_mediaFiles := fs_mediaFiles st @ [file]\<rparr>)
      else if ext \<noteq> [] \<and> toLowerCase ext \<notin> set [''ds_store'', ''thumbs.db'', ''desktop.ini''] then
        st\<lparr>fs_skippedFiles := fs_skippedFiles st @ [file_name file]\<rparr>
      else st)"

definition foundTxtWarning :: "File list \<Rightarrow> string" where
  \<comment> \<open>the template \<open>Found ${txtFiles.length} .txt files - will use the first one:
      ${txtFiles[0].name}\<close>, for a list that is not empty\<close>
  "foundTxtWarning txtFiles =
     ''Found '' @ show_nat (length txtFiles) @ '' .txt files - will use the first one: ''
     @ file_name (hd txtFiles)"

definition validateFolder :: "File list \<Rightarrow> ValidationResult" where
  "validateFolder files =
     (if length files = 0 then invalid ''Folder is empty'' [] FolderType
      else
        (let st = fold classifyFile files
                    \<lparr>fs_txtFiles = [], fs_mediaFiles = [], fs_skippedFiles = [], fs_warnings = []\<rparr>;
             txtFiles = fs_txtFiles st
         in if length txtFiles = 0 then
              invalid ''No WhatsApp chat .txt file found in folder'' (fs_warnings st) FolderType
            else
              (let warnings1 = (if length txtFiles > 1
                                then fs_warnings st @ [foundTxtWarning txtFiles]
                                else fs_warnings st);
                   \<comment> \<open>Validate the main txt file\<close>
                   txtValidation = validateTextFile (hd txtFiles) False 5
               in if \<not> vr_valid txtValidation then
                    \<lparr>vr_valid = False, vr_error = vr_error txtValidation,
                     vr_warnings = vr_warnings txtValidation @ warnings1,
                     vr_fileType = FolderType, vr_details = None\<rparr>
                  else
                    (let skipped = fs_skippedFiles st;
                         warnings2 =
                           (if length skipped > 0 \<and> length skipped \<le> 5 then
                              warnings1 @ [''Skipped unsupported files: '' @ join '', '' skipped]
                            else if length skipped > 5 then
                              warnings1 @ [''Skipped '' @ show_nat (length skipped)
                                           @ '' unsupported files'']
                            else warnings1)
                     in \<lparr>vr_valid = True, vr_error = None,
                         vr_warnings = vr_warnings txtValidation @ warnings2,
                         vr_fileType = FolderType,
                         vr_details = Some \<lparr>d_txtFile = Some (hd txtFiles),
                                             d_mediaFiles = Some (fs_mediaFiles st)\<rparr>\<rparr>))))"



section \<open>Notions used in the properties\<close>

definition enriches :: "Message \<Rightarrow> Message \<Rightarrow> bool" where
  \<comment> \<open>\<open>b\<close> is \<open>a\<close>, or \<open>a\<close> is a media message and \<open>b\<close> differs from it in the two
      media fields at most\<close>
  "enriches a b \<longleftrightarrow>
     b = a \<or> (msg_type a = Media
              \<and> b = a\<lparr>msg_mediaFileName := msg_mediaFileName b, msg_mediaType := msg_mediaType b\<rparr>)"

definition entry_ok :: "Message list \<Rightarrow> Message \<times> nat \<Rightarrow> bool" where
  \<comment> \<open>an entry of \<open>unmatchedMediaMsgs\<close> holds a media message that enriches the input
      message at its index\<close>
  "entry_ok orig e \<longleftrightarrow>
     msg_type (fst e) = Media \<and> (snd e < length orig \<longrightarrow> enriches (orig ! snd e) (fst e))"

definition line_sender :: "string \<Rightarrow> string option" where
  \<comment> \<open>the sender that a raw line bears: the line is a message header and what follows
      the timestamp has the form \<open>sender: content\<close>\<close>
  "line_sender raw =
     (let line = trim raw in
      if line = [] then None
      else (case tryParseMessageLine line of
              Inr (Some (timestamp, remainder)) \<Rightarrow>
                (case rx_match remainder senderMatch_rx of
                   Some senderMatch \<Rightarrow>
                     (case (grp senderMatch 1, grp senderMatch 2) of
                        (Some g1, Some g2) \<Rightarrow> Some (trim g1)
                      | _ \<Rightarrow> None)
                 | None \<Rightarrow> None)
            | _ \<Rightarrow> None))"

definition distinctSenders :: "string list \<Rightarrow> string set" where
  \<comment> \<open>the distinct senders of the sender-bearing lines\<close>
  "distinctSenders lines = {s. \<exists>raw \<in> set lines. line_sender raw = Some s}"

definition is_txt :: "File \<Rightarrow> bool" where
  \<comment> \<open>the test of \<open>validateFolder\<close> for a structured text file\<close>
  "is_txt file = (getFileExtension (file_name file) = ''txt'')"


definition mono_calls :: "nat \<Rightarrow> nat \<Rightarrow> progress \<Rightarrow> bool" where
  \<comment> \<open>what the calls made by a loop that is at \<open>start\<close>, of \<open>n\<close> records, look like,
      however the run ends\<close>
  "mono_calls start n calls \<longleftrightarrow>
     sorted (map fst calls)
     \<and> (\<forall>c \<in> set calls. start < fst c \<and> fst c \<le> n \<and> snd c = n)"

definition good_calls :: "bool \<Rightarrow> nat \<Rightarrow> nat \<Rightarrow> progress \<Rightarrow> bool" where
  \<comment> \<open>what they look like when the loop runs to its end\<close>
  "good_calls cb start n calls \<longleftrightarrow>
     sorted (map fst calls)
     \<and> (\<forall>c \<in> set calls. start < fst c \<and> fst c \<le> n \<and> snd c = n)
     \<and> (calls \<noteq> [] \<longrightarrow> fst (last calls) = n)
     \<and> (cb \<and> start < n \<longrightarrow> calls \<noteq> [])
     \<and> (\<not> cb \<longrightarrow> calls = [])"

definition run_summary :: "(DB \<times> progress) outcome \<Rightarrow> bool \<times> progress" where
  \<comment> \<open>whether a run completed, and the calls of the callback it made\<close>
  "run_summary out = (resolved out, snd (payload out))"

section \<open>Concrete inputs\<close>





definition ex_chat_text :: string where
  \<comment> \<open>the three lines of the example of the specification\<close>
  "ex_chat_text =
     ''[01/02/24, 09:00:00] Alice: Hello'' @ [CHR 0x0A] @
     ''there'' @ [CHR 0x0A] @
     ''[01/02/24, 09:01:05] Bob: <Media omitted>''"

definition summary :: "Message \<Rightarrow> string \<times> string option \<times> MessageType \<times> string option" where
  \<comment> \<open>content, sender, kind and bound file name of a message\<close>
  "summary m = (msg_content m, msg_sender m, msg_type m, msg_mediaFileName m)"

definition clock :: "js_error + (int \<times> string) option \<Rightarrow> js_error + (int \<times> int \<times> string) option" where
  \<comment> \<open>hour and minute of the timestamp of a parsed header, with the remainder of the line\<close>
  "clock r = map_sum id (map_option (\<lambda>(t, rest). (getHours t, getMinutes t, rest))) r"

definition ex_img_a :: File where
  "ex_img_a = \<lparr>file_name = ''IMG-20240201-WA0007.jpg'', file_content = ''a'', file_readError = None\<rparr>"

definition ex_img_b :: File where
  \<comment> \<open>another file of the same name, as a second folder of the upload can hold\<close>
  "ex_img_b = \<lparr>file_name = ''IMG-20240201-WA0007.jpg'', file_content = ''b'', file_readError = None\<rparr>"

definition ex_media_msg :: Message where
  "ex_media_msg =
     \<lparr>msg_id = ''msg-1706778065000-1'', msg_timestamp = 1706778065000,
      msg_sender = Some ''Bob'', msg_content = ''<Media omitted>'', msg_type = Media,
      msg_mediaUrl = None, msg_mediaType = None, msg_mediaFileName = None\<rparr>"

definition never :: "db_op \<Rightarrow> bool" where
  \<comment> \<open>the environment in which no operation fails\<close>
  "never op = False"

definition ex_fails_first_batch :: "db_op \<Rightarrow> bool" where
  \<comment> \<open>the transaction of the first batch fails\<close>
  "ex_fails_first_batch op = (op = Transaction 0)"

definition ex_fails_third_chunk :: "db_op \<Rightarrow> bool" where
  \<comment> \<open>the transaction of the chunk that starts at record 2000 fails\<close>
  "ex_fails_third_chunk op = (op = Transaction 2000)"

definition ex_db :: DB where
  \<comment> \<open>a store that holds one message of the chat \<open>chat-1\<close>\<close>
  "ex_db = \<lparr>db_chats = [], db_messages = [toStored ''chat-1'' ex_media_msg], db_media = []\<rparr>"

definition ex_txt_a :: File where
  \<comment> \<open>two chat files; the name of the first sorts before the name of the second\<close>
  "ex_txt_a = \<lparr>file_name = ''a.txt'', file_content = ''[01/02/24, 09:00:00] Alice: Hello'',
               file_readError = None\<rparr>"

definition ex_txt_b :: File where
  "ex_txt_b = \<lparr>file_name = ''b.txt'', file_content = ''[01/02/24, 09:01:05] Bob: Hi'',
               file_readError = None\<rparr>"

definition ex_group_file :: File where
  \<comment> \<open>a chat with three senders\<close>
  "ex_group_file =
     \<lparr>file_name = ''chat.txt'',
      file_content = ''1/2/24, 09:00 - A: x'' @ [CHR 0x0A] @ ''1/2/24, 09:01 - B: y'' @ [CHR 0x0A]
                     @ ''1/2/24, 09:02 - C: z'',
      file_readError = None\<rparr>"

definition ex_text_msg :: Message where
  "ex_text_msg =
     \<lparr>msg_id = ''msg-1706778000000-0'', msg_timestamp = 1706778000000,
      msg_sender = Some ''Alice'', msg_content = ''Hello'', msg_type = Text,
      msg_mediaUrl = None, msg_mediaType = None, msg_mediaFileName = None\<rparr>"

section \<open>Verified properties\<close>

subsection \<open>Bytes and lists\<close>






subsection \<open>ZIP validation\<close>




subsection \<open>The media correlator\<close>

text \<open>
  Claim C10. With an empty list of candidate files the correlator returns the messages
  it was given, no unmatched file, and both counts zero.
\<close>

theorem matchMediaToMessages_no_files:
  "matchMediaToMessages messages [] =
     \<lparr>matchedMessages = messages, unmatchedMedia = [], matchCount = 0, totalMedia = 0\<rparr>"
  by (simp add: matchMediaToMessages_def)

text \<open>
  Claim C2, at an input on which the program breaks it. Two candidate files with the
  same name take one entry of the lookup map: one file is matched, none is reported
  unmatched, and \<open>totalMedia\<close> is 2, so the two counts do not add up to the total.
\<close>

theorem matchMediaToMessages_same_name_files:
  "matchCount (matchMediaToMessages [ex_media_msg] [ex_img_a, ex_img_b]) = 1
   \<and> unmatchedMedia (matchMediaToMessages [ex_media_msg] [ex_img_a, ex_img_b]) = []
   \<and> totalMedia (matchMediaToMessages [ex_media_msg] [ex_img_a, ex_img_b]) = 2"
  by code_simp

subsection \<open>The log parser\<close>

lemma ex_chat_lines:
  "split_on (CHR 0x0A) ex_chat_text =
     [''[01/02/24, 09:00:00] Alice: Hello'', ''there'',
      ''[01/02/24, 09:01:05] Bob: <Media omitted>'']"
  by code_simp

lemma ex_chat_chunks:
  "map_sum id (\<lambda>st. map summary (closeCurrent st))
     (parseChunks [''[01/02/24, 09:00:00] Alice: Hello'', ''there'',
                   ''[01/02/24, 09:01:05] Bob: <Media omitted>''] 0
        \<lparr>ps_messages = [], ps_currentMessage = None, ps_senderSet = []\<rparr>)
   = Inr [(''Hello'' @ [CHR 0x0A] @ ''there'', Some ''Alice'', Text, None),
          (''<Media omitted>'', Some ''Bob'', Media, None)]"
  by code_simp

text \<open>
  Claim C4. The three lines of the example parse to two messages: the first with content
  \<open>Hello\<close>, a line feed, \<open>there\<close>, sender Alice and kind text; the second of kind media,
  sender Bob, with no file name bound. The name of the file plays no part.
\<close>

theorem parseWhatsAppChat_example:
  "map_sum id (\<lambda>r. map summary (pr_messages r))
     (parseWhatsAppChat \<lparr>file_name = name, file_content = ex_chat_text, file_readError = None\<rparr>)
   = Inr [(''Hello'' @ [CHR 0x0A] @ ''there'', Some ''Alice'', Text, None),
          (''<Media omitted>'', Some ''Bob'', Media, None)]"
proof -
  let ?r = "parseChunks [''[01/02/24, 09:00:00] Alice: Hello'', ''there'',
                   ''[01/02/24, 09:01:05] Bob: <Media omitted>''] 0
        \<lparr>ps_messages = [], ps_currentMessage = None, ps_senderSet = []\<rparr>"
  from ex_chat_chunks obtain st where "?r = Inr st"
    and "map summary (closeCurrent st)
         = [(''Hello'' @ [CHR 0x0A] @ ''there'', Some ''Alice'', Text, None),
            (''<Media omitted>'', Some ''Bob'', Media, None)]"
    by (cases ?r) simp_all
  then show ?thesis by (simp add: parseWhatsAppChat_def ex_chat_lines)
qed

text \<open>
  The branch of \<open>parseTimestamp\<close> for the pattern with index 1 does normalise the hour:
  on a match of that pattern, 12:15 AM becomes 0:15 and 11:59 PM becomes 23:59.
\<close>

lemma parseTimestamp_ampm_branch:
  "map_option (\<lambda>m. map_sum id (\<lambda>t. (getHours t, getMinutes t)) (parseTimestamp m 1))
     (rx_match ''[1/2/24, 12:15 AM] Alice: hi'' (TIMESTAMP_PATTERNS ! 1)) = Some (Inr (0, 15))
   \<and> map_option (\<lambda>m. map_sum id (\<lambda>t. (getHours t, getMinutes t)) (parseTimestamp m 1))
     (rx_match ''[1/2/24, 11:59 PM] Alice: hi'' (TIMESTAMP_PATTERNS ! 1)) = Some (Inr (23, 59))"
  by code_simp

text \<open>
  Claim C1, at inputs on which the program breaks it. A header in the bracketed 12-hour
  form is matched by the pattern with index 0 first, which stops in front of the AM/PM
  mark, so the hour is read as a 24-hour one: 12:15 AM gives hour 12 (not 0), 11:59 PM
  gives hour 11 (not 23), and the mark is left in the remainder of the line.
\<close>

theorem tryParseMessageLine_ampm_not_normalised:
  "clock (tryParseMessageLine ''[1/2/24, 12:15 AM] Alice: hi'')
     = Inr (Some (12, 15, ''AM] Alice: hi''))
   \<and> clock (tryParseMessageLine ''[1/2/24, 11:59 PM] Alice: hi'')
     = Inr (Some (11, 59, ''PM] Alice: hi''))"
  by code_simp

subsection \<open>Chunked persistence\<close>

lemma chunk_fold_split:
  "fold f (drop (start + C) xs) (fold f (take (min (start + C) (length xs) - start) (drop start xs)) s)
   = fold f (drop start xs) s"
proof -
  have 1: "take (min (start + C) (length xs) - start) (drop start xs) = take C (drop start xs)"
    by (cases "start + C \<le> length xs") (simp_all add: min_def)
  have 2: "drop (start + C) xs = drop C (drop start xs)"
    by (simp add: add.commute)
  have 3: "fold f ys s = fold f (drop C ys) (fold f (take C ys) s)" for ys
  proof -
    have "fold f (take C ys @ drop C ys) s = fold f (drop C ys) (fold f (take C ys) s)"
      by (simp only: fold_append comp_apply)
    then show ?thesis by (simp only: append_take_drop_id)
  qed
  show ?thesis unfolding 1 2 by (rule 3[symmetric])
qed

lemma resolved_payload: "resolved out \<Longrightarrow> out = Resolved (payload out)"
  by (cases out) simp_all

lemma good_calls_mono: "good_calls cb start n calls \<Longrightarrow> mono_calls start n calls"
  by (simp add: good_calls_def mono_calls_def)

lemma good_calls_done: "\<not> start < n \<Longrightarrow> good_calls cb start n []"
  by (simp add: good_calls_def)

lemma mono_calls_nil: "mono_calls start n []"
  by (simp add: mono_calls_def)

lemma mono_calls_step:
  assumes "1 \<le> C" and "start < n" and "mono_calls (start + C) n calls"
  shows "mono_calls start n ((if cb then [(min (start + C) n, n)] else []) @ calls)"
proof -
  have a: "\<forall>c \<in> set calls. min (start + C) n \<le> fst c"
    using assms(3) by (auto simp: mono_calls_def)
  show ?thesis using assms a
    by (auto simp: mono_calls_def)
qed

lemma good_calls_step:
  assumes "1 \<le> C" and "start < n" and "good_calls cb (start + C) n calls"
  shows "good_calls cb start n ((if cb then [(min (start + C) n, n)] else []) @ calls)"
proof (cases cb)
  case False
  with assms show ?thesis by (simp add: good_calls_def)
next
  case True
  have a: "\<forall>c \<in> set calls. min (start + C) n \<le> fst c"
    using assms(3) by (auto simp: good_calls_def)
  have b: "calls = [] \<Longrightarrow> min (start + C) n = n"
    using assms(3) True by (auto simp: good_calls_def)
  show ?thesis using True assms a b
    by (auto simp: good_calls_def)
qed

text \<open>
  The loop of the chunked save from any point on, in any environment: it ends; the calls
  it makes carry the total and never decrease; when it resolves, the store is the one
  that results from putting the remaining records one by one, and the calls end at the
  total; and it resolves when no transaction fails.
\<close>

lemma saveLoop_outcome:
  assumes "1 \<le> C"
  shows "\<exists>out db' calls. saveLoop fails C ms cid cb start (db, tr) = Some out
          \<and> payload out = (db', tr @ calls)
          \<and> mono_calls start (length ms) calls
          \<and> (resolved out \<longrightarrow> db' = fold (putMessage cid) (drop start ms) db
                                \<and> good_calls cb start (length ms) calls)
          \<and> ((\<forall>k. \<not> fails (Transaction k)) \<longrightarrow> resolved out)"
proof (induction "length ms - start" arbitrary: start db tr rule: less_induct)
  case less
  show ?case
  proof (cases "start < length ms")
    case False
    then have "saveLoop fails C ms cid cb start (db, tr) = Some (Resolved (db, tr))"
      by (subst saveLoop.simps) simp
    with False show ?thesis
      by (intro exI[of _ "Resolved (db, tr)"] exI[of _ db] exI[of _ "[]"])
         (simp add: good_calls_done mono_calls_nil)
  next
    case True
    show ?thesis
    proof (cases "fails (Transaction start)")
      case fl: True
      have "saveLoop fails C ms cid cb start (db, tr) = Some (Rejected (db, tr))"
        using True fl by (subst saveLoop.simps) simp
      with fl show ?thesis
        by (intro exI[of _ "Rejected (db, tr)"] exI[of _ db] exI[of _ "[]"])
           (auto simp: mono_calls_nil)
    next
      case ok: False
      let ?chunkEnd = "min (start + C) (length ms)"
      let ?db = "fold (putMessage cid) (take (?chunkEnd - start) (drop start ms)) db"
      let ?c = "if cb then [(?chunkEnd, length ms)] else []"
      have lt: "length ms - (start + C) < length ms - start" using True assms by simp
      from less[OF lt, of ?db "tr @ ?c"]
      obtain out db' calls
        where r: "saveLoop fails C ms cid cb (start + C) (?db, tr @ ?c) = Some out"
          and p: "payload out = (db', (tr @ ?c) @ calls)"
          and m: "mono_calls (start + C) (length ms) calls"
          and g: "resolved out \<longrightarrow> db' = fold (putMessage cid) (drop (start + C) ms) ?db
                                     \<and> good_calls cb (start + C) (length ms) calls"
          and n: "(\<forall>k. \<not> fails (Transaction k)) \<longrightarrow> resolved out"
        by blast
      have u: "saveLoop fails C ms cid cb start (db, tr)
               = saveLoop fails C ms cid cb (start + C) (?db, tr @ ?c)"
        using True ok by (subst saveLoop.simps) (simp add: Let_def)
      have 1: "saveLoop fails C ms cid cb start (db, tr) = Some out"
        unfolding u r ..
      have 2: "payload out = (db', tr @ (?c @ calls))"
        using p by simp
      have 3: "mono_calls start (length ms) (?c @ calls)"
        using mono_calls_step[OF assms True m] .
      have 4: "resolved out \<longrightarrow> db' = fold (putMessage cid) (drop start ms) db
                                   \<and> good_calls cb start (length ms) (?c @ calls)"
      proof
        assume ro: "resolved out"
        with g have d: "db' = fold (putMessage cid) (drop (start + C) ms) ?db"
          and gc: "good_calls cb (start + C) (length ms) calls" by simp_all
        from d have "db' = fold (putMessage cid) (drop start ms) db"
          by (simp only: chunk_fold_split)
        moreover have "good_calls cb start (length ms) (?c @ calls)"
          using good_calls_step[OF assms True gc] .
        ultimately show "db' = fold (putMessage cid) (drop start ms) db
                         \<and> good_calls cb start (length ms) (?c @ calls)" ..
      qed
      from 1 2 3 4 n show ?thesis by blast
    qed
  qed
qed

lemma deleteLoop_outcome:
  assumes "1 \<le> C"
  shows "\<exists>out db' calls. deleteLoop fails C ids cb start (db, tr) = Some out
          \<and> payload out = (db', tr @ calls)
          \<and> mono_calls start (length ids) calls
          \<and> (resolved out \<longrightarrow> good_calls cb start (length ids) calls)
          \<and> ((\<forall>k. \<not> fails (Transaction k)) \<longrightarrow> resolved out)"
proof (induction "length ids - start" arbitrary: start db tr rule: less_induct)
  case less
  show ?case
  proof (cases "start < length ids")
    case False
    then have "deleteLoop fails C ids cb start (db, tr) = Some (Resolved (db, tr))"
      by (subst deleteLoop.simps) simp
    with False show ?thesis
      by (intro exI[of _ "Resolved (db, tr)"] exI[of _ db] exI[of _ "[]"])
         (simp add: good_calls_done mono_calls_nil)
  next
    case True
    show ?thesis
    proof (cases "fails (Transaction start)")
      case fl: True
      have "deleteLoop fails C ids cb start (db, tr) = Some (Rejected (db, tr))"
        using True fl by (subst deleteLoop.simps) simp
      with fl show ?thesis
        by (intro exI[of _ "Rejected (db, tr)"] exI[of _ db] exI[of _ "[]"])
           (auto simp: mono_calls_nil)
    next
      case ok: False
      let ?batchEnd = "min (start + C) (length ids)"
      let ?db = "deleteBatch (take (?batchEnd - start) (drop start ids)) db"
      let ?c = "if cb then [(?batchEnd, length ids)] else []"
      have lt: "length ids - (start + C) < length ids - start" using True assms by simp
      from less[OF lt, of ?db "tr @ ?c"]
      obtain out db' calls
        where r: "deleteLoop fails C ids cb (start + C) (?db, tr @ ?c) = Some out"
          and p: "payload out = (db', (tr @ ?c) @ calls)"
          and m: "mono_calls (start + C) (length ids) calls"
          and g: "resolved out \<longrightarrow> good_calls cb (start + C) (length ids) calls"
          and n: "(\<forall>k. \<not> fails (Transaction k)) \<longrightarrow> resolved out"
        by blast
      have u: "deleteLoop fails C ids cb start (db, tr)
               = deleteLoop fails C ids cb (start + C) (?db, tr @ ?c)"
        using True ok by (subst deleteLoop.simps) (simp add: Let_def)
      have 1: "deleteLoop fails C ids cb start (db, tr) = Some out"
        unfolding u r ..
      have 2: "payload out = (db', tr @ (?c @ calls))"
        using p by simp
      have 3: "mono_calls start (length ids) (?c @ calls)"
        using mono_calls_step[OF assms True m] .
      have 4: "resolved out \<longrightarrow> good_calls cb start (length ids) (?c @ calls)"
        using g good_calls_step[OF assms True] by blast
      from 1 2 3 4 n show ?thesis by blast
    qed
  qed
qed

lemma saveMessagesWith_outcome:
  assumes "1 \<le> C"
  shows "\<exists>out db' calls. saveMessagesWith fails C ms cid cb db = Some out
          \<and> payload out = (db', calls)
          \<and> mono_calls 0 (length ms) calls
          \<and> (resolved out \<longrightarrow> db' = fold (putMessage cid) ms db
                                \<and> good_calls cb 0 (length ms) calls)
          \<and> ((\<forall>op. \<not> fails op) \<longrightarrow> resolved out)"
proof (cases "fails OpenDB")
  case True
  then have "saveMessagesWith fails C ms cid cb db = Some (Rejected (db, []))"
    by (simp add: saveMessagesWith_def)
  with True show ?thesis
    by (intro exI[of _ "Rejected (db, [])"] exI[of _ db] exI[of _ "[]"])
       (auto simp: mono_calls_nil)
next
  case False
  from saveLoop_outcome[OF assms, of fails ms cid cb 0 db "[]"]
  obtain out db' calls
    where r: "saveLoop fails C ms cid cb 0 (db, []) = Some out"
      and p: "payload out = (db', [] @ calls)"
      and m: "mono_calls 0 (length ms) calls"
      and g: "resolved out \<longrightarrow> db' = fold (putMessage cid) (drop 0 ms) db
                                 \<and> good_calls cb 0 (length ms) calls"
      and n: "(\<forall>k. \<not> fails (Transaction k)) \<longrightarrow> resolved out"
    by blast
  have 1: "saveMessagesWith fails C ms cid cb db = Some out"
    using False r by (simp add: saveMessagesWith_def)
  have 2: "payload out = (db', calls)" using p by simp
  have 4: "resolved out \<longrightarrow> db' = fold (putMessage cid) ms db \<and> good_calls cb 0 (length ms) calls"
    using g by simp
  have 5: "(\<forall>op. \<not> fails op) \<longrightarrow> resolved out" using n by blast
  from 1 2 m 4 5 show ?thesis by blast
qed

text \<open>
  Claim C3. In the environment in which nothing fails, the chunked save runs to
  completion for any two chunk sizes of at least 1 and leaves the same store: the one
  that results from putting the records one by one, in their order. In any environments,
  two runs that complete leave the same store, whatever their chunk sizes.
\<close>

theorem saveMessages_chunk_size_independent:
  assumes "1 \<le> C1" and "1 \<le> C2"
  shows "(\<exists>calls1 calls2.
            saveMessagesWith never C1 messages cid onProgress db
              = Some (Resolved (fold (putMessage cid) messages db, calls1))
          \<and> saveMessagesWith never C2 messages cid onProgress db
              = Some (Resolved (fold (putMessage cid) messages db, calls2)))
       \<and> (\<forall>fails1 fails2 db1 calls1 db2 calls2.
            saveMessagesWith fails1 C1 messages cid onProgress db = Some (Resolved (db1, calls1))
            \<and> saveMessagesWith fails2 C2 messages cid onProgress db = Some (Resolved (db2, calls2))
            \<longrightarrow> db1 = db2)"
proof
  have run: "\<exists>calls. saveMessagesWith never C messages cid onProgress db
                = Some (Resolved (fold (putMessage cid) messages db, calls))"
    if c: "1 \<le> C" for C
  proof -
    from saveMessagesWith_outcome[OF c, of never messages cid onProgress db]
    obtain out db' calls
      where r: "saveMessagesWith never C messages cid onProgress db = Some out"
        and p: "payload out = (db', calls)"
        and g: "resolved out \<longrightarrow> db' = fold (putMessage cid) messages db
                                   \<and> good_calls onProgress 0 (length messages) calls"
        and n: "(\<forall>op. \<not> never op) \<longrightarrow> resolved out"
      by blast
    from n have ro: "resolved out" by (simp add: never_def)
    with g have d: "db' = fold (putMessage cid) messages db" by simp
    from resolved_payload[OF ro] p d
    have "out = Resolved (fold (putMessage cid) messages db, calls)" by simp
    with r show ?thesis by blast
  qed
  from run[OF assms(1)] run[OF assms(2)]
  show "\<exists>calls1 calls2.
            saveMessagesWith never C1 messages cid onProgress db
              = Some (Resolved (fold (putMessage cid) messages db, calls1))
          \<and> saveMessagesWith never C2 messages cid onProgress db
              = Some (Resolved (fold (putMessage cid) messages db, calls2))"
    by blast
next
  have store: "db1 = fold (putMessage cid) messages db"
    if c: "1 \<le> C"
      and e: "saveMessagesWith fails C messages cid onProgress db = Some (Resolved (db1, calls1))"
    for C fails db1 calls1
  proof -
    from saveMessagesWith_outcome[OF c, of fails messages cid onProgress db]
    obtain out db' calls
      where r: "saveMessagesWith fails C messages cid onProgress db = Some out"
        and p: "payload out = (db', calls)"
        and g: "resolved out \<longrightarrow> db' = fold (putMessage cid) messages db
                                   \<and> good_calls onProgress 0 (length messages) calls"
      by blast
    from r e have o: "out = Resolved (db1, calls1)" by simp
    with p have "db' = db1" by simp
    with g o show ?thesis by simp
  qed
  show "\<forall>fails1 fails2 db1 calls1 db2 calls2.
            saveMessagesWith fails1 C1 messages cid onProgress db = Some (Resolved (db1, calls1))
            \<and> saveMessagesWith fails2 C2 messages cid onProgress db = Some (Resolved (db2, calls2))
            \<longrightarrow> db1 = db2"
    using store[OF assms(1)] store[OF assms(2)] by blast
qed

theorem saveMessages_chunk_size_independent_witness:
  "(1::nat) \<le> 1 \<and> (1::nat) \<le> 1000
   \<and> (\<exists>calls1 calls2.
         saveMessagesWith never 1 [ex_text_msg, ex_media_msg] ''chat-1'' True ex_db
           = Some (Resolved (fold (putMessage ''chat-1'') [ex_text_msg, ex_media_msg] ex_db, calls1))
       \<and> saveMessagesWith never 1000 [ex_text_msg, ex_media_msg] ''chat-1'' True ex_db
           = Some (Resolved (fold (putMessage ''chat-1'') [ex_text_msg, ex_media_msg] ex_db, calls2)))"
  using saveMessages_chunk_size_independent[of 1 1000 "[ex_text_msg, ex_media_msg]" "''chat-1''" True ex_db]
  by simp

lemma saveMessages_calls:
  "\<exists>out db' calls. saveMessages fails messages cid onProgress db = Some out
      \<and> payload out = (db', calls)
      \<and> sorted (map fst calls)
      \<and> (\<forall>c \<in> set calls. snd c = length messages)
      \<and> (resolved out \<longrightarrow>
            (calls \<noteq> [] \<longrightarrow> fst (last calls) = snd (last calls))
            \<and> (onProgress \<and> messages \<noteq> [] \<longrightarrow> calls \<noteq> []))
      \<and> ((\<forall>op. \<not> fails op) \<longrightarrow> resolved out)"
proof -
  have one: "(1::nat) \<le> 1000" by simp
  from saveMessagesWith_outcome[OF one, of fails messages cid onProgress db]
  obtain out db' calls
    where r: "saveMessagesWith fails 1000 messages cid onProgress db = Some out"
      and p: "payload out = (db', calls)"
      and m: "mono_calls 0 (length messages) calls"
      and g: "resolved out \<longrightarrow> db' = fold (putMessage cid) messages db
                                 \<and> good_calls onProgress 0 (length messages) calls"
      and n: "(\<forall>op. \<not> fails op) \<longrightarrow> resolved out"
    by blast
  have r': "saveMessages fails messages cid onProgress db = Some out"
    using r by (simp add: saveMessages_def)
  have p1: "sorted (map fst calls)" using m by (simp add: mono_calls_def)
  have p2: "\<forall>c \<in> set calls. snd c = length messages" using m by (simp add: mono_calls_def)
  have l: "calls \<noteq> [] \<Longrightarrow> snd (last calls) = length messages"
    using p2 last_in_set[of calls] by simp
  have p3: "resolved out \<longrightarrow>
            (calls \<noteq> [] \<longrightarrow> fst (last calls) = snd (last calls))
            \<and> (onProgress \<and> messages \<noteq> [] \<longrightarrow> calls \<noteq> [])"
    using g l by (simp add: good_calls_def)
  from r' p p1 p2 p3 n show ?thesis by blast
qed

lemma deleteChat_calls:
  "\<exists>out db' calls. deleteChat fails cid onProgress db = Some out
      \<and> payload out = (db', calls)
      \<and> sorted (map fst calls)
      \<and> (\<forall>c \<in> set calls. snd c = length (filter (\<lambda>m. chatId m = cid) (db_messages db)))
      \<and> (resolved out \<longrightarrow>
            (calls \<noteq> [] \<longrightarrow> fst (last calls) = snd (last calls))
            \<and> (onProgress \<and> (\<exists>m \<in> set (db_messages db). chatId m = cid) \<longrightarrow> calls \<noteq> []))
      \<and> ((\<forall>op. \<not> fails op) \<longrightarrow> resolved out)"
proof -
  let ?sel = "filter (\<lambda>m. chatId m = cid) (db_messages db)"
  let ?ids = "sort (map msg_id ?sel)"
  let ?n = "length ?sel"
  let ?db1 = "db\<lparr>db_chats := idb_delete chat_id cid (db_chats db)\<rparr>"
  let ?Q = "\<lambda>out calls. sorted (map fst calls)
      \<and> (\<forall>c \<in> set calls. snd c = ?n)
      \<and> (resolved out \<longrightarrow>
            (calls \<noteq> [] \<longrightarrow> fst (last calls) = snd (last calls))
            \<and> (onProgress \<and> (\<exists>m \<in> set (db_messages db). chatId m = cid) \<longrightarrow> calls \<noteq> []))
      \<and> ((\<forall>op. \<not> fails op) \<longrightarrow> resolved out)"
  have len: "length ?ids = ?n" by simp
  have early: ?thesis if "fails OpenDB \<or> fails DeleteChatRecord \<or> fails ReadMessageIds"
  proof -
    have "\<exists>d. deleteChat fails cid onProgress db = Some (Rejected (d, []))"
      unfolding deleteChat_def deleteChatWith_def Let_def using that
      by (cases "fails OpenDB"; cases "fails DeleteChatRecord"; cases "fails ReadMessageIds")
         simp_all
    then obtain d where d: "deleteChat fails cid onProgress db = Some (Rejected (d, []))" ..
    have "?Q (Rejected (d, [])) []" using that by auto
    with d show ?thesis
      by (intro exI[of _ "Rejected (d, [])"] exI[of _ d] exI[of _ "[]"]) simp
  qed
  show ?thesis
  proof (cases "fails OpenDB \<or> fails DeleteChatRecord \<or> fails ReadMessageIds")
    case True
    then show ?thesis by (rule early)
  next
    case nf: False
    show ?thesis
    proof (cases "?n = 0")
      case True
      then have d: "deleteChat fails cid onProgress db = Some (Resolved (?db1, []))"
        using nf by (simp add: deleteChat_def deleteChatWith_def)
      have "\<not> (\<exists>m \<in> set (db_messages db). chatId m = cid)"
        using True by (simp add: filter_empty_conv)
      then have "?Q (Resolved (?db1, [])) []" by simp
      with d show ?thesis
        by (intro exI[of _ "Resolved (?db1, [])"] exI[of _ ?db1] exI[of _ "[]"]) simp
    next
      case False
      let ?first = "if onProgress then [(0, ?n)] else []"
      have one: "(1::nat) \<le> 20000" by simp
      from deleteLoop_outcome[OF one, of fails ?ids onProgress 0 ?db1 ?first]
      obtain out db' calls
        where r: "deleteLoop fails 20000 ?ids onProgress 0 (?db1, ?first) = Some out"
          and p: "payload out = (db', ?first @ calls)"
          and m0: "mono_calls 0 (length ?ids) calls"
          and g0: "resolved out \<longrightarrow> good_calls onProgress 0 (length ?ids) calls"
          and n: "(\<forall>k. \<not> fails (Transaction k)) \<longrightarrow> resolved out"
        by blast
      from m0 have m: "mono_calls 0 ?n calls" by (simp only: len)
      from g0 have g: "resolved out \<longrightarrow> good_calls onProgress 0 ?n calls" by (simp only: len)
      have idsne: "?ids \<noteq> []" using False len by fastforce
      have e: "deleteChat fails cid onProgress db
               = deleteLoop fails 20000 ?ids onProgress 0 (?db1, ?first)"
        using False idsne nf by (simp add: deleteChat_def deleteChatWith_def Let_def)
      have d: "deleteChat fails cid onProgress db = Some out"
        unfolding e r ..
      have p1: "sorted (map fst (?first @ calls))" using m by (auto simp: mono_calls_def)
      have p2: "\<forall>c \<in> set (?first @ calls). snd c = ?n" using m by (auto simp: mono_calls_def)
      have p3: "resolved out \<longrightarrow>
            (?first @ calls \<noteq> [] \<longrightarrow> fst (last (?first @ calls)) = snd (last (?first @ calls)))
            \<and> (onProgress \<and> (\<exists>m \<in> set (db_messages db). chatId m = cid)
                 \<longrightarrow> ?first @ calls \<noteq> [])"
      proof
        assume "resolved out"
        with g have gc: "good_calls onProgress 0 ?n calls" by simp
        have l: "calls \<noteq> [] \<Longrightarrow> snd (last calls) = ?n"
          using gc last_in_set[of calls] by (simp add: good_calls_def)
        have ne: "onProgress \<Longrightarrow> calls \<noteq> []" using gc False by (simp add: good_calls_def)
        show "(?first @ calls \<noteq> [] \<longrightarrow> fst (last (?first @ calls)) = snd (last (?first @ calls)))
            \<and> (onProgress \<and> (\<exists>m \<in> set (db_messages db). chatId m = cid)
                 \<longrightarrow> ?first @ calls \<noteq> [])"
          using gc l ne by (auto simp: good_calls_def)
      qed
      have p4: "(\<forall>op. \<not> fails op) \<longrightarrow> resolved out" using n by blast
      from d p p1 p2 p3 p4 show ?thesis by blast
    qed
  qed
qed

text \<open>
  Claim C6, as the program has it. In any environment the chunked save and the chunked
  delete end; the values of \<open>processed\<close> that they pass to the progress callback never
  decrease, and every call carries the total. When the run completes (the promise
  resolves, as it does when no operation on the store fails), the last call, if there is
  one, has \<open>processed\<close> equal to the total, and there is a call as soon as a callback is
  given and there is a record to save or delete.
\<close>

theorem progress_calls_monotone_final_total:
  "(\<exists>out db' calls. saveMessages fails messages cid onProgress db = Some out
      \<and> payload out = (db', calls)
      \<and> sorted (map fst calls)
      \<and> (\<forall>c \<in> set calls. snd c = length messages)
      \<and> (resolved out \<longrightarrow>
            (calls \<noteq> [] \<longrightarrow> fst (last calls) = snd (last calls))
            \<and> (onProgress \<and> messages \<noteq> [] \<longrightarrow> calls \<noteq> []))
      \<and> ((\<forall>op. \<not> fails op) \<longrightarrow> resolved out))
   \<and> (\<exists>out db' calls. deleteChat fails cid onProgress db = Some out
      \<and> payload out = (db', calls)
      \<and> sorted (map fst calls)
      \<and> (\<forall>c \<in> set calls. snd c = length (filter (\<lambda>m. chatId m = cid) (db_messages db)))
      \<and> (resolved out \<longrightarrow>
            (calls \<noteq> [] \<longrightarrow> fst (last calls) = snd (last calls))
            \<and> (onProgress \<and> (\<exists>m \<in> set (db_messages db). chatId m = cid) \<longrightarrow> calls \<noteq> []))
      \<and> ((\<forall>op. \<not> fails op) \<longrightarrow> resolved out))"
  by (rule conjI, rule saveMessages_calls, rule deleteChat_calls)

theorem progress_calls_monotone_final_total_witness:
  "(\<exists>db' calls. saveMessages never [ex_media_msg] ''chat-1'' True ex_db
                    = Some (Resolved (db', calls))
      \<and> calls \<noteq> [] \<and> fst (last calls) = snd (last calls))
   \<and> (\<exists>db' calls. deleteChat never ''chat-1'' True ex_db = Some (Resolved (db', calls))
      \<and> calls \<noteq> [] \<and> fst (last calls) = snd (last calls))"
proof -
  have m: "\<exists>m \<in> set (db_messages ex_db). chatId m = ''chat-1''"
    by (simp add: ex_db_def toStored_def Message.defs StoredMessage.defs)
  have nv: "\<forall>op. \<not> never op" by (simp add: never_def)
  from progress_calls_monotone_final_total[of never "[ex_media_msg]" "''chat-1''" True ex_db]
  obtain out1 db1 calls1 out2 db2 calls2
    where s: "saveMessages never [ex_media_msg] ''chat-1'' True ex_db = Some out1"
      and sp: "payload out1 = (db1, calls1)"
      and s1: "resolved out1 \<longrightarrow>
            (calls1 \<noteq> [] \<longrightarrow> fst (last calls1) = snd (last calls1))
            \<and> (True \<and> [ex_media_msg] \<noteq> [] \<longrightarrow> calls1 \<noteq> [])"
      and s2: "(\<forall>op. \<not> never op) \<longrightarrow> resolved out1"
      and d: "deleteChat never ''chat-1'' True ex_db = Some out2"
      and dp: "payload out2 = (db2, calls2)"
      and d1: "resolved out2 \<longrightarrow>
            (calls2 \<noteq> [] \<longrightarrow> fst (last calls2) = snd (last calls2))
            \<and> (True \<and> (\<exists>m \<in> set (db_messages ex_db). chatId m = ''chat-1'') \<longrightarrow> calls2 \<noteq> [])"
      and d2: "(\<forall>op. \<not> never op) \<longrightarrow> resolved out2"
    by blast
  from s2 nv have r1: "resolved out1" by blast
  from d2 nv have r2: "resolved out2" by blast
  from resolved_payload[OF r1] sp have o1: "out1 = Resolved (db1, calls1)" by simp
  from resolved_payload[OF r2] dp have o2: "out2 = Resolved (db2, calls2)" by simp
  from s1 r1 have c1: "calls1 \<noteq> []" and f1: "fst (last calls1) = snd (last calls1)" by simp_all
  from d1 r2 m have c2: "calls2 \<noteq> []" and f2: "fst (last calls2) = snd (last calls2)" by simp_all
  from s o1 c1 f1 d o2 c2 f2 show ?thesis by blast
qed

text \<open>
  The claim as the specification words it fails on a run that a failing batch ends. Of
  2500 messages to save, with the transaction of the third chunk failing, the calls are
  (1000, 2500) and (2000, 2500); of one message to delete, with the transaction of the
  first batch failing, the only call is (0, 1). In both the last call has \<open>processed\<close>
  below the total.
\<close>

theorem progress_final_call_counterexample:
  "map_option run_summary
     (saveMessages ex_fails_third_chunk (replicate 2500 ex_media_msg) ''chat-1'' True ex_db)
     = Some (False, [(1000, 2500), (2000, 2500)])
   \<and> map_option run_summary
     (deleteChat ex_fails_first_batch ''chat-1'' True ex_db)
     = Some (False, [(0, 1)])"
proof
  have f0: "\<not> ex_fails_third_chunk OpenDB" "\<not> ex_fails_third_chunk (Transaction 0)"
    "\<not> ex_fails_third_chunk (Transaction 1000)" "ex_fails_third_chunk (Transaction 2000)"
    by (simp_all add: ex_fails_third_chunk_def)
  let ?ms = "replicate 2500 ex_media_msg"
  have 1: "saveLoop ex_fails_third_chunk 1000 ?ms cid cb 2000 st = Some (Rejected st)"
    for cid cb st
    using f0 by (subst saveLoop.simps) simp
  have 2: "saveLoop ex_fails_third_chunk 1000 ?ms cid True 1000 (d, tr)
           = Some (Rejected (fold (putMessage cid) (take 1000 (drop 1000 ?ms)) d,
                             tr @ [(2000, 2500)]))"
    for cid d tr
    using f0 by (subst saveLoop.simps) (simp add: Let_def 1)
  have 3: "saveLoop ex_fails_third_chunk 1000 ?ms cid True 0 (d, tr)
           = Some (Rejected (fold (putMessage cid) (take 1000 (drop 1000 ?ms))
                               (fold (putMessage cid) (take 1000 (drop 0 ?ms)) d),
                             (tr @ [(1000, 2500)]) @ [(2000, 2500)]))"
    for cid d tr
    using f0 by (subst saveLoop.simps) (simp add: Let_def 2)
  show "map_option run_summary
     (saveMessages ex_fails_third_chunk (replicate 2500 ex_media_msg) ''chat-1'' True ex_db)
     = Some (False, [(1000, 2500), (2000, 2500)])"
    using f0 by (simp add: saveMessages_def saveMessagesWith_def 3 run_summary_def)
next
  have f: "\<not> ex_fails_first_batch OpenDB" "\<not> ex_fails_first_batch DeleteChatRecord"
    "\<not> ex_fails_first_batch ReadMessageIds" "ex_fails_first_batch (Transaction 0)"
    by (simp_all add: ex_fails_first_batch_def)
  have sel: "filter (\<lambda>m. chatId m = ''chat-1'') (db_messages ex_db) = db_messages ex_db"
    by (simp add: ex_db_def toStored_def Message.defs StoredMessage.defs)
  have len: "length (db_messages ex_db) = 1" by (simp add: ex_db_def)
  have 1: "deleteLoop ex_fails_first_batch 20000 ids cb 0 st = Some (Rejected st)"
    if "ids \<noteq> []" for ids cb st
    using f that by (subst deleteLoop.simps) simp
  have ne: "sort (map msg_id (db_messages ex_db)) \<noteq> []" by (simp add: ex_db_def)
  show "map_option run_summary
     (deleteChat ex_fails_first_batch ''chat-1'' True ex_db)
     = Some (False, [(0, 1)])"
    using f ne by (simp add: deleteChat_def deleteChatWith_def Let_def sel len 1 run_summary_def)
qed

subsection \<open>The frame of the media correlator\<close>

lemma enriches_refl: "enriches a a"
  by (simp add: enriches_def)

lemma enriches_type: "enriches a b \<Longrightarrow> msg_type b = msg_type a"
  unfolding enriches_def by (cases a; cases b) auto

lemma enriches_update:
  assumes "enriches a b" and "msg_type b = Media"
  shows "enriches a (b\<lparr>msg_mediaFileName := fn, msg_mediaType := mt\<rparr>)"
  using assms unfolding enriches_def by (cases a; cases b) auto

lemma enrich_at:
  assumes "list_all2 enriches orig ms"
    and "i < length ms \<Longrightarrow> enriches (orig ! i) new"
  shows "list_all2 enriches orig (ms[i := new])"
proof (cases "i < length ms")
  case True
  from list_all2_update_cong[OF assms(1) assms(2)[OF True], of i]
  show ?thesis by simp
next
  case False
  then have "ms[i := new] = ms" by (simp add: list_update_beyond)
  then show ?thesis using assms(1) by simp
qed

lemma strategy1_step_frame:
  assumes "list_all2 enriches orig (st_messages st)"
  shows "list_all2 enriches orig (st_messages (strategy1_step i st))"
proof -
  have upd: "list_all2 enriches orig
      ((st_messages st)[i := (st_messages st ! i)\<lparr>msg_mediaFileName := fn, msg_mediaType := mt\<rparr>])"
    if "msg_type (st_messages st ! i) = Media" for fn mt
  proof (rule enrich_at[OF assms])
    assume "i < length (st_messages st)"
    then have "enriches (orig ! i) (st_messages st ! i)"
      using assms by (simp add: list_all2_conv_all_nth)
    from enriches_update[OF this that]
    show "enriches (orig ! i) ((st_messages st ! i)\<lparr>msg_mediaFileName := fn, msg_mediaType := mt\<rparr>)" .
  qed
  show ?thesis
    using assms upd
    by (simp add: strategy1_step_def Let_def split: option.splits)
qed

lemma strategy1_frame:
  assumes "list_all2 enriches orig (st_messages st)"
  shows "list_all2 enriches orig (st_messages (fold strategy1_step is st))"
  using assms by (induction "is" arbitrary: st) (simp_all add: strategy1_step_frame)

lemma strategy2_step_frame:
  assumes "list_all2 enriches orig (st_messages st)" and "entry_ok orig e"
  shows "list_all2 enriches orig (st_messages (strategy2_step uwt e st))"
proof -
  have upd: "list_all2 enriches orig
      ((st_messages st)[snd e := (fst e)\<lparr>msg_mediaFileName := fn, msg_mediaType := mt\<rparr>])" for fn mt
  proof (rule enrich_at[OF assms(1)])
    assume "snd e < length (st_messages st)"
    then have "snd e < length orig" using assms(1) by (simp add: list_all2_lengthD)
    with assms(2) have "enriches (orig ! snd e) (fst e)" and "msg_type (fst e) = Media"
      by (simp_all add: entry_ok_def)
    from enriches_update[OF this]
    show "enriches (orig ! snd e) ((fst e)\<lparr>msg_mediaFileName := fn, msg_mediaType := mt\<rparr>)" .
  qed
  show ?thesis
    using assms(1) upd
    by (simp add: strategy2_step_def Let_def split: option.splits list.splits)
qed

lemma strategy2_frame:
  assumes "list_all2 enriches orig (st_messages st)" and "\<forall>e \<in> set es. entry_ok orig e"
  shows "list_all2 enriches orig (st_messages (fold (strategy2_step uwt) es st))"
  using assms by (induction es arbitrary: st) (simp_all add: strategy2_step_frame)

lemma snapshot_entries_ok:
  assumes "list_all2 enriches orig ms"
  shows "\<forall>e \<in> set (filter (\<lambda>(msg, idx). msg_type msg = Media \<and> falsy (msg_mediaFileName msg))
                       (zip ms [0 ..< length ms])). entry_ok orig e"
proof
  fix e
  assume "e \<in> set (filter (\<lambda>(msg, idx). msg_type msg = Media \<and> falsy (msg_mediaFileName msg))
                       (zip ms [0 ..< length ms]))"
  then have z: "e \<in> set (zip ms [0 ..< length ms])" and t: "msg_type (fst e) = Media"
    by (auto)
  from z have i: "snd e < length ms" "ms ! snd e = fst e"
    unfolding in_set_zip by auto
  from assms i(1) have "enriches (orig ! snd e) (ms ! snd e)"
    by (simp add: list_all2_conv_all_nth)
  then have "enriches (orig ! snd e) (fst e)" by (simp only: i(2))
  with t show "entry_ok orig e" by (simp add: entry_ok_def)
qed

lemma matchMediaToMessages_frame:
  "list_all2 enriches messages (matchedMessages (matchMediaToMessages messages mediaFiles))"
proof (cases "length mediaFiles = 0")
  case True
  then show ?thesis
    by (simp add: matchMediaToMessages_def list_all2_conv_all_nth enriches_refl)
next
  case False
  let ?st0 = "\<lparr>st_messages = messages, st_lookup = buildMediaLookup mediaFiles, st_used = []\<rparr>"
  let ?st1 = "fold strategy1_step [0 ..< length messages] ?st0"
  have "list_all2 enriches messages (st_messages ?st0)"
    by (simp add: list_all2_conv_all_nth enriches_refl)
  then have 1: "list_all2 enriches messages (st_messages ?st1)"
    by (rule strategy1_frame)
  from strategy2_frame[OF 1 snapshot_entries_ok[OF 1]]
  show ?thesis using False
    by (simp add: matchMediaToMessages_def Let_def)
qed

text \<open>
  Claim C5. The correlator returns as many messages as it was given. Each of them has the
  kind of the input message at its index, and is that message, or, when that message is
  of kind media, differs from it in \<open>mediaFileName\<close> and \<open>mediaType\<close> at most.
\<close>

theorem matchMediaToMessages_frame_effect:
  "length (matchedMessages (matchMediaToMessages messages mediaFiles)) = length messages
   \<and> (\<forall>i < length messages.
        msg_type (matchedMessages (matchMediaToMessages messages mediaFiles) ! i)
          = msg_type (messages ! i)
        \<and> (matchedMessages (matchMediaToMessages messages mediaFiles) ! i = messages ! i
           \<or> (msg_type (messages ! i) = Media
              \<and> matchedMessages (matchMediaToMessages messages mediaFiles) ! i
                = (messages ! i)
                    \<lparr>msg_mediaFileName :=
                       msg_mediaFileName (matchedMessages (matchMediaToMessages messages mediaFiles) ! i),
                     msg_mediaType :=
                       msg_mediaType (matchedMessages (matchMediaToMessages messages mediaFiles) ! i)\<rparr>)))"
proof -
  let ?out = "matchedMessages (matchMediaToMessages messages mediaFiles)"
  have f: "list_all2 enriches messages ?out" by (rule matchMediaToMessages_frame)
  then have len: "length ?out = length messages" by (simp add: list_all2_lengthD)
  have e: "enriches (messages ! i) (?out ! i)" if "i < length messages" for i
    using f that by (simp add: list_all2_conv_all_nth)
  show ?thesis
  proof (intro conjI allI impI)
    show "length ?out = length messages" by (rule len)
  next
    fix i assume "i < length messages"
    from enriches_type[OF e[OF this]]
    show "msg_type (?out ! i) = msg_type (messages ! i)" .
  next
    fix i assume "i < length messages"
    from e[OF this]
    show "?out ! i = messages ! i
           \<or> (msg_type (messages ! i) = Media
              \<and> ?out ! i = (messages ! i)\<lparr>msg_mediaFileName := msg_mediaFileName (?out ! i),
                                           msg_mediaType := msg_mediaType (?out ! i)\<rparr>)"
      unfolding enriches_def .
  qed
qed

lemma ex_match_eval:
  "matchedMessages (matchMediaToMessages [ex_text_msg, ex_media_msg] [ex_img_a])
   = [ex_text_msg,
      ex_media_msg\<lparr>msg_mediaFileName := Some ''IMG-20240201-WA0007.jpg'',
                   msg_mediaType := Some Image\<rparr>]"
  by code_simp

theorem matchMediaToMessages_frame_effect_witness:
  "(1::nat) < length [ex_text_msg, ex_media_msg]
   \<and> length (matchedMessages (matchMediaToMessages [ex_text_msg, ex_media_msg] [ex_img_a])) = 2
   \<and> msg_type (matchedMessages (matchMediaToMessages [ex_text_msg, ex_media_msg] [ex_img_a]) ! 1)
       = msg_type ex_media_msg
   \<and> msg_type ex_media_msg = Media
   \<and> matchedMessages (matchMediaToMessages [ex_text_msg, ex_media_msg] [ex_img_a]) ! 1
       = ex_media_msg\<lparr>msg_mediaFileName := Some ''IMG-20240201-WA0007.jpg'',
                      msg_mediaType := Some Image\<rparr>"
  using matchMediaToMessages_frame_effect[of "[ex_text_msg, ex_media_msg]" "[ex_img_a]"]
  by (simp add: ex_match_eval) (simp add: ex_media_msg_def)

subsection \<open>Group inference\<close>

lemma processLine_senders:
  assumes "processLine st raw = Inr st'"
  shows "ps_senderSet st' = (case line_sender raw of
                               None \<Rightarrow> ps_senderSet st
                             | Some s \<Rightarrow> List.insert s (ps_senderSet st))"
  using assms unfolding processLine_def line_sender_def Let_def
  by (auto split: if_splits option.splits sum.splits prod.splits)

lemma processLines_senders:
  assumes "processLines st lines = Inr st'" and "distinct (ps_senderSet st)"
  shows "set (ps_senderSet st') = set (ps_senderSet st) \<union> distinctSenders lines
         \<and> distinct (ps_senderSet st')"
  using assms
proof (induction lines arbitrary: st)
  case Nil
  then show ?case by (simp add: distinctSenders_def)
next
  case (Cons raw rest)
  from Cons.prems(1) obtain st1 where 1: "processLine st raw = Inr st1"
    and 2: "processLines st1 rest = Inr st'"
    by (auto split: sum.splits)
  from processLine_senders[OF 1] Cons.prems(2)
  have d: "distinct (ps_senderSet st1)"
    and s: "set (ps_senderSet st1) = set (ps_senderSet st) \<union> {s. line_sender raw = Some s}"
    by (auto split: option.splits)
  from Cons.IH[OF 2 d] s show ?case
    by (auto simp: distinctSenders_def)
qed

lemma processLines_append:
  "processLines st (xs @ ys) =
     (case processLines st xs of Inl e \<Rightarrow> Inl e | Inr st' \<Rightarrow> processLines st' ys)"
  by (induction xs arbitrary: st) (auto split: sum.splits)

lemma parseChunks_processLines:
  "parseChunks lines start st = processLines st (drop start lines)"
proof (induction lines start st rule: parseChunks.induct)
  case (1 lines chunkStart st)
  show ?case
  proof (cases "chunkStart < length lines")
    case False
    then show ?thesis by (subst parseChunks.simps) simp
  next
    case True
    let ?chunk = "take (min (chunkStart + PARSE_CHUNK_SIZE) (length lines) - chunkStart)
                    (drop chunkStart lines)"
    have c: "?chunk = take PARSE_CHUNK_SIZE (drop chunkStart lines)"
      by (cases "chunkStart + PARSE_CHUNK_SIZE \<le> length lines") (simp_all add: min_def)
    have d: "drop (chunkStart + PARSE_CHUNK_SIZE) lines
             = drop PARSE_CHUNK_SIZE (drop chunkStart lines)"
      by (simp add: add.commute)
    have split: "drop chunkStart lines = ?chunk @ drop (chunkStart + PARSE_CHUNK_SIZE) lines"
      unfolding c d by (simp only: append_take_drop_id)
    show ?thesis
    proof (cases "processLines st ?chunk")
      case (Inl e)
      have "parseChunks lines chunkStart st = Inl e"
        using True Inl by (subst parseChunks.simps) (simp add: Let_def)
      moreover have "processLines st (drop chunkStart lines)
            = processLines st (?chunk @ drop (chunkStart + PARSE_CHUNK_SIZE) lines)"
        by (rule arg_cong[OF split])
      moreover have "processLines st (?chunk @ drop (chunkStart + PARSE_CHUNK_SIZE) lines) = Inl e"
        by (simp only: processLines_append Inl sum.case)
      ultimately show ?thesis by simp
    next
      case (Inr st1)
      have "parseChunks lines chunkStart st
            = parseChunks lines (chunkStart + PARSE_CHUNK_SIZE) st1"
        using True Inr by (subst parseChunks.simps) (simp add: Let_def)
      also have "\<dots> = processLines st1 (drop (chunkStart + PARSE_CHUNK_SIZE) lines)"
        using "1.IH"[OF True refl Inr] by simp
      also have "\<dots> = processLines st (?chunk @ drop (chunkStart + PARSE_CHUNK_SIZE) lines)"
        by (simp only: processLines_append Inr sum.case)
      also have "\<dots> = processLines st (drop chunkStart lines)"
        by (rule arg_cong[OF split[symmetric]])
      finally show ?thesis .
    qed
  qed
qed

text \<open>
  Claim C9. When the parser returns a result, its \<open>isGroup\<close> flag is true exactly when
  more than two distinct senders occur on the sender-bearing lines of the text.
\<close>

theorem parseWhatsAppChat_isGroup:
  assumes "parseWhatsAppChat file = Inr r"
  shows "pr_isGroup r \<longleftrightarrow> 2 < card (distinctSenders (split_on (CHR 0x0A) (file_content file)))"
proof -
  let ?lines = "split_on (CHR 0x0A) (file_content file)"
  let ?st0 = "\<lparr>ps_messages = [], ps_currentMessage = None, ps_senderSet = []\<rparr>"
  from assms obtain st where p: "parseChunks ?lines 0 ?st0 = Inr st"
    and g: "pr_isGroup r = (2 < length (ps_senderSet st))"
    by (auto simp: parseWhatsAppChat_def Let_def split: option.splits sum.splits)
  from p have "processLines ?st0 ?lines = Inr st"
    by (simp add: parseChunks_processLines)
  from processLines_senders[OF this]
  have "set (ps_senderSet st) = distinctSenders ?lines" and "distinct (ps_senderSet st)"
    by simp_all
  then have "card (distinctSenders ?lines) = length (ps_senderSet st)"
    by (metis distinct_card)
  with g show ?thesis by simp
qed

lemma ex_group_parse: "map_sum id pr_isGroup (parseWhatsAppChat ex_group_file) = Inr True"
  by code_simp

theorem parseWhatsAppChat_isGroup_witness:
  "\<exists>r. parseWhatsAppChat ex_group_file = Inr r \<and> pr_isGroup r
       \<and> 2 < card (distinctSenders (split_on (CHR 0x0A) (file_content ex_group_file)))"
proof -
  from ex_group_parse obtain r where r: "parseWhatsAppChat ex_group_file = Inr r"
    and g: "pr_isGroup r"
    by (cases "parseWhatsAppChat ex_group_file") simp_all
  from parseWhatsAppChat_isGroup[OF r] g
  have "2 < card (distinctSenders (split_on (CHR 0x0A) (file_content ex_group_file)))" by simp
  with r g show ?thesis by blast
qed

subsection \<open>Folder validation\<close>

lemma classify_txt:
  "fs_txtFiles (fold classifyFile files st) = fs_txtFiles st @ filter is_txt files"
  by (induction files arbitrary: st) (simp_all add: classifyFile_def Let_def is_txt_def)

text \<open>
  Claim C7, as the program has it. When the input holds more than one \<open>.txt\<close> file, the
  verdict carries the warning that names the first of them in the order of the input;
  the verdict is valid exactly when that file passes the validation of a text file, and
  then that file is the chat file of the details.
\<close>

theorem validateFolder_first_txt:
  assumes "1 < length (filter is_txt files)"
  shows "(''Found '' @ show_nat (length (filter is_txt files))
            @ '' .txt files - will use the first one: '' @ file_name (hd (filter is_txt files)))
           \<in> set (vr_warnings (validateFolder files))
       \<and> vr_valid (validateFolder files)
           = vr_valid (validateTextFile (hd (filter is_txt files)) False 5)
       \<and> (vr_valid (validateFolder files) \<longrightarrow>
            map_option d_txtFile (vr_details (validateFolder files))
              = Some (Some (hd (filter is_txt files))))"
proof -
  let ?st = "fold classifyFile files
               \<lparr>fs_txtFiles = [], fs_mediaFiles = [], fs_skippedFiles = [], fs_warnings = []\<rparr>"
  let ?txts = "filter is_txt files"
  let ?tv = "validateTextFile (hd ?txts) False 5"
  let ?w1 = "fs_warnings ?st @ [foundTxtWarning ?txts]"
  have t: "fs_txtFiles ?st = ?txts" by (simp add: classify_txt)
  have ne: "files \<noteq> []" using assms by auto
  have tne: "?txts \<noteq> []" using assms by auto
  have w: "foundTxtWarning ?txts \<in> set ?w1" by simp
  show ?thesis
  proof (cases "vr_valid ?tv")
    case False
    have "validateFolder files =
            \<lparr>vr_valid = False, vr_error = vr_error ?tv, vr_warnings = vr_warnings ?tv @ ?w1,
             vr_fileType = FolderType, vr_details = None\<rparr>"
      using ne tne assms False by (simp add: validateFolder_def Let_def t)
    then show ?thesis using False w by (simp add: foundTxtWarning_def)
  next
    case True
    have "\<exists>ws. validateFolder files =
            \<lparr>vr_valid = True, vr_error = None, vr_warnings = vr_warnings ?tv @ ?w1 @ ws,
             vr_fileType = FolderType,
             vr_details = Some \<lparr>d_txtFile = Some (hd ?txts),
                                 d_mediaFiles = Some (fs_mediaFiles ?st)\<rparr>\<rparr>"
      using ne tne assms True by (simp add: validateFolder_def Let_def t)
    then obtain ws where "validateFolder files =
            \<lparr>vr_valid = True, vr_error = None, vr_warnings = vr_warnings ?tv @ ?w1 @ ws,
             vr_fileType = FolderType,
             vr_details = Some \<lparr>d_txtFile = Some (hd ?txts),
                                 d_mediaFiles = Some (fs_mediaFiles ?st)\<rparr>\<rparr>" ..
    then show ?thesis using True w by (simp add: foundTxtWarning_def)
  qed
qed

theorem validateFolder_first_txt_witness:
  "1 < length (filter is_txt [ex_txt_b, ex_txt_a])
   \<and> ''Found 2 .txt files - will use the first one: b.txt''
        \<in> set (vr_warnings (validateFolder [ex_txt_b, ex_txt_a]))
   \<and> vr_valid (validateFolder [ex_txt_b, ex_txt_a])
   \<and> map_option d_txtFile (vr_details (validateFolder [ex_txt_b, ex_txt_a])) = Some (Some ex_txt_b)"
proof -
  have f: "filter is_txt [ex_txt_b, ex_txt_a] = [ex_txt_b, ex_txt_a]" by code_simp
  have h: "1 < length (filter is_txt [ex_txt_b, ex_txt_a])" unfolding f by simp
  have v: "vr_valid (validateTextFile ex_txt_b False 5)" by code_simp
  have n: "show_nat 2 = ''2''" by code_simp
  have l: "length [ex_txt_b, ex_txt_a] = 2" and d: "hd [ex_txt_b, ex_txt_a] = ex_txt_b"
    by simp_all
  have m: "file_name ex_txt_b = ''b.txt''" by (simp add: ex_txt_b_def)
  from validateFolder_first_txt[OF h] h v show ?thesis
    unfolding f l d n m by simp
qed

text \<open>
  The claim as the specification words it fails where the first text file of the input is
  not the first by name: of \<open>b.txt\<close> and \<open>a.txt\<close>, given in this order, \<open>b.txt\<close> is
  chosen.
\<close>

theorem validateFolder_alphabetical_counterexample:
  "1 < length (filter is_txt [ex_txt_b, ex_txt_a])
   \<and> file_name ex_txt_a < file_name ex_txt_b
   \<and> vr_valid (validateFolder [ex_txt_b, ex_txt_a])
   \<and> map_option d_txtFile (vr_details (validateFolder [ex_txt_b, ex_txt_a])) = Some (Some ex_txt_b)
   \<and> ex_txt_b \<noteq> ex_txt_a"
  by code_simp

subsection \<open>Counting files with distinct names\<close>

lemma setMatched_length: "length (setMatched k i lk) = length lk"
  by (simp add: setMatched_def)

lemma strategy1_step_lookup_length:
  "length (st_lookup (strategy1_step i st)) = length (st_lookup st)"
  by (simp add: strategy1_step_def Let_def setMatched_length split: option.splits)

lemma strategy1_lookup_length:
  "length (st_lookup (fold strategy1_step is st)) = length (st_lookup st)"
  by (induction "is" arbitrary: st) (simp_all add: strategy1_step_lookup_length)

lemma strategy2_step_lookup_length:
  "length (st_lookup (strategy2_step uwt e st)) = length (st_lookup st)"
  by (simp add: strategy2_step_def Let_def setMatched_length split: option.splits list.splits)

lemma strategy2_lookup_length:
  "length (st_lookup (fold (strategy2_step uwt) es st)) = length (st_lookup st)"
  by (induction es arbitrary: st) (simp_all add: strategy2_step_lookup_length)

lemma update_new_length:
  "k \<notin> fst ` set al \<Longrightarrow> length (AList.update k v al) = Suc (length al)"
  by (induction al) auto

lemma lookup_fold_length:
  assumes "distinct (map k files)" and "k ` set files \<inter> fst ` set al = {}"
  shows "length (fold (\<lambda>file lookup. AList.update (k file) (v file) lookup) files al)
         = length al + length files"
  using assms
proof (induction files arbitrary: al)
  case Nil
  then show ?case by simp
next
  case (Cons f fs)
  have new: "k f \<notin> fst ` set al" using Cons.prems(2) by auto
  have d: "distinct (map k fs)" using Cons.prems(1) by simp
  have "k ` set fs \<inter> fst ` set (AList.update (k f) (v f) al) = {}"
    using Cons.prems by (auto simp: dom_update)
  from Cons.IH[OF d this] new show ?case
    by (simp add: update_new_length)
qed

lemma buildMediaLookup_length:
  assumes "distinct (map (\<lambda>f. toLowerCase (file_name f)) mediaFiles)"
  shows "length (buildMediaLookup mediaFiles) = length mediaFiles"
  unfolding buildMediaLookup_def
  using lookup_fold_length[OF assms, of "[]"] by simp

text \<open>
  When no two candidate files have the same name up to case, every file has its own
  entry of the lookup map, and the matched and the unmatched files add up to the total.
\<close>

lemma matchMediaToMessages_counts:
  assumes "distinct (map (\<lambda>f. toLowerCase (file_name f)) mediaFiles)"
  shows "matchCount (matchMediaToMessages messages mediaFiles)
           + length (unmatchedMedia (matchMediaToMessages messages mediaFiles))
         = totalMedia (matchMediaToMessages messages mediaFiles)"
proof (cases "length mediaFiles = 0")
  case True
  then show ?thesis by (simp add: matchMediaToMessages_def)
next
  case False
  have split: "length (filter (\<lambda>(k, m). mf_matched m) lk)
             + length (filter (\<lambda>(k, m). \<not> mf_matched m) lk) = length lk"
    for lk :: "(string \<times> MediaFile) list"
    using sum_length_filter_compl[of "\<lambda>(k, m). mf_matched m" lk]
    by (simp add: case_prod_unfold)
  show ?thesis
    using False
    by (simp add: matchMediaToMessages_def Let_def split strategy2_lookup_length
        strategy1_lookup_length buildMediaLookup_length[OF assms])
qed

end
